theory Spec2Isabelle
  imports Main
begin

section \<open>Constants (\<^verbatim>\<open>lib/constants.ts\<close>)\<close>

text \<open>
  The constants module holds three domain names that the deployer fills in (they are
  empty strings in the repository), the mailbox lifetime in seconds and the list of
  allowed CORS origins. The stack is modelled as a function of these values, so that
  every statement below holds for whatever domain names are filled in; \<open>constants\<close>
  is the module exactly as it stands in the repository.
\<close>

record constants_module =
  HOSTED_ZONE_NAME :: string
  EMAIL_DOMAIN_NAME :: string
  FRONTEND_DOMAIN_NAME :: string
  MAILBOX_TTL :: nat

definition CORS_ALLOWED_ORIGINS :: "constants_module \<Rightarrow> string list" where
  "CORS_ALLOWED_ORIGINS c = [''https://'' @ FRONTEND_DOMAIN_NAME c, ''http://localhost:3000'']"

definition constants :: constants_module where
  "constants = \<lparr> HOSTED_ZONE_NAME = '''', EMAIL_DOMAIN_NAME = '''',
     FRONTEND_DOMAIN_NAME = '''', MAILBOX_TTL = 60 * 60 * 24 \<rparr>"

section \<open>Storage (\<^verbatim>\<open>lib/Constructs/Storage.ts\<close>)\<close>

datatype table_id = disposableAddressesTable | disposableEmailsTable | disposableReplyAddressesTable

datatype attribute_type = STRING | NUMBER | BINARY

record key_attribute =
  attr_name :: string
  attr_type :: attribute_type

datatype billing_mode = PAY_PER_REQUEST | PROVISIONED

datatype removal_policy = DESTROY | RETAIN | SNAPSHOT

record table_props =
  partitionKey :: key_attribute
  sortKey :: "key_attribute option"
  billingMode :: billing_mode
  removalPolicy :: removal_policy

text \<open>The three tables of \<open>StorageConstruct\<close>, by the field that holds them.\<close>

fun StorageConstruct :: "table_id \<Rightarrow> table_props" where
  "StorageConstruct disposableAddressesTable =
     \<lparr> partitionKey = \<lparr> attr_name = ''address'', attr_type = STRING \<rparr>,
       sortKey = None,
       billingMode = PAY_PER_REQUEST, removalPolicy = DESTROY \<rparr>"
| "StorageConstruct disposableEmailsTable =
     \<lparr> partitionKey = \<lparr> attr_name = ''destination'', attr_type = STRING \<rparr>,
       sortKey = Some \<lparr> attr_name = ''messageId'', attr_type = STRING \<rparr>,
       billingMode = PAY_PER_REQUEST, removalPolicy = DESTROY \<rparr>"
| "StorageConstruct disposableReplyAddressesTable =
     \<lparr> partitionKey = \<lparr> attr_name = ''proxyAddress'', attr_type = STRING \<rparr>,
       sortKey = None,
       billingMode = PAY_PER_REQUEST, removalPolicy = DESTROY \<rparr>"

text \<open>
  The fourth resource of \<open>StorageConstruct\<close> is the bucket \<open>emailStorageBucket\<close>
  (removal policy \<open>DESTROY\<close>, all public access blocked). There is one bucket for
  mail, so the model refers to it through the constructor \<open>EmailBucket\<close> below.
\<close>

section \<open>Backend functions (\<^verbatim>\<open>lib/Constructs/DisposableEmailLambda.ts\<close>)\<close>

datatype lambda_fn =
    cleanUpLambda | createEmailLambda | getEmailFileLambda | getEmailsListLambda
  | incomingMailCheckLambda | storeEmailLambda | sendEmailLambda | changeAddressSettingsLambda

datatype topic = emailNotificationTopic

record LambdaConstructProps =
  domain :: string
  mailboxTtl :: nat
  corsAllowedOrigins :: "string list"
  emailLambdaSnsTopic :: topic

text \<open>
  \<open>tableName\<close> and \<open>bucketName\<close> are deploy-time tokens; the model uses the
  construct identifiers for them.
\<close>

fun tableName :: "table_id \<Rightarrow> string" where
  "tableName disposableAddressesTable = ''disposableAddressesTable''"
| "tableName disposableEmailsTable = ''disposableEmailsTable''"
| "tableName disposableReplyAddressesTable = ''disposableReplyAddressesTable''"

definition bucketName :: string where
  "bucketName = ''emailStorageBucket''"

text \<open>JavaScript's \<open>Number.prototype.toString\<close> on a non-negative integer: its decimal digits.\<close>

definition digit_char :: "nat \<Rightarrow> char" where
  "digit_char d = char_of (48 + d)"

function toString :: "nat \<Rightarrow> string" where
  "toString n = (if n < 10 then [digit_char n] else toString (n div 10) @ [digit_char (n mod 10)])"
  by pat_completeness auto
termination
  by (relation "measure id") auto

declare toString.simps [simp del]

text \<open>\<open>Array.prototype.join\<close> with a separator.\<close>

fun join :: "string \<Rightarrow> string list \<Rightarrow> string" where
  "join sep [] = ''''"
| "join sep [x] = x"
| "join sep (x # y # ys) = x @ sep @ join sep (y # ys)"

record function_props =
  code :: string
  handler :: string
  timeout_seconds :: "nat option"
  environment :: "(string \<times> string) list"

fun lambda_function :: "LambdaConstructProps \<Rightarrow> lambda_fn \<Rightarrow> function_props" where
  "lambda_function props incomingMailCheckLambda =
     \<lparr> code = ''src/IncomingMailCheckFunction/'',
       handler = ''IncomingMailCheckFunction.lambda_handler'',
       timeout_seconds = None,
       environment =
         [(''addresses_table_name'', tableName disposableAddressesTable),
          (''reply_addresses_table_name'', tableName disposableReplyAddressesTable)] \<rparr>"
| "lambda_function props storeEmailLambda =
     \<lparr> code = ''src/StoreEmailFunction/'',
       handler = ''StoreEmailFunction.lambda_handler'',
       timeout_seconds = Some (5 * 60),
       environment =
         [(''valid_domains'', domain props),
          (''addresses_table_name'', tableName disposableAddressesTable),
          (''emails_table_name'', tableName disposableEmailsTable),
          (''reply_addresses_table_name'', tableName disposableReplyAddressesTable),
          (''emails_bucket_name'', bucketName)] \<rparr>"
| "lambda_function props createEmailLambda =
     \<lparr> code = ''src/CreateEmailFunction/'',
       handler = ''CreateEmailFunction.lambda_handler'',
       timeout_seconds = None,
       environment =
         [(''mailbox_ttl'', toString (mailboxTtl props)),
          (''valid_domains'', domain props),
          (''cors_allowed_origins'', join '','' (corsAllowedOrigins props)),
          (''addresses_table_name'', tableName disposableAddressesTable)] \<rparr>"
| "lambda_function props getEmailsListLambda =
     \<lparr> code = ''src/GetEmailsListFunction/'',
       handler = ''GetEmailsListFunction.lambda_handler'',
       timeout_seconds = None,
       environment =
         [(''cors_allowed_origins'', join '','' (corsAllowedOrigins props)),
          (''emails_table_name'', tableName disposableEmailsTable),
          (''addresses_table_name'', tableName disposableAddressesTable)] \<rparr>"
| "lambda_function props getEmailFileLambda =
     \<lparr> code = ''src/GetEmailFileFunction/'',
       handler = ''GetEmailFileFunction.lambda_handler'',
       timeout_seconds = None,
       environment =
         [(''cors_allowed_origins'', join '','' (corsAllowedOrigins props)),
          (''emails_table_name'', tableName disposableEmailsTable),
          (''addresses_table_name'', tableName disposableAddressesTable),
          (''emails_bucket_name'', bucketName)] \<rparr>"
| "lambda_function props cleanUpLambda =
     \<lparr> code = ''src/CleanUpFunction/'',
       handler = ''CleanUpFunction.lambda_handler'',
       timeout_seconds = Some (1 * 60),
       environment =
         [(''addresses_table_name'', tableName disposableAddressesTable),
          (''emails_table_name'', tableName disposableEmailsTable),
          (''reply_addresses_table_name'', tableName disposableReplyAddressesTable),
          (''emails_bucket_name'', bucketName)] \<rparr>"
| "lambda_function props sendEmailLambda =
     \<lparr> code = ''src/SendEmailFunction/'',
       handler = ''SendEmailFunction.lambda_handler'',
       timeout_seconds = Some (1 * 60),
       environment =
         [(''cors_allowed_origins'', join '','' (corsAllowedOrigins props)),
          (''emails_table_name'', tableName disposableEmailsTable),
          (''addresses_table_name'', tableName disposableAddressesTable)] \<rparr>"
| "lambda_function props changeAddressSettingsLambda =
     \<lparr> code = ''src/ChangeAddressSettingsFunction/'',
       handler = ''ChangeAddressSettingsFunction.lambda_handler'',
       timeout_seconds = None,
       environment =
         [(''mailbox_ttl'', toString (mailboxTtl props)),
          (''cors_allowed_origins'', join '','' (corsAllowedOrigins props)),
          (''addresses_table_name'', tableName disposableAddressesTable)] \<rparr>"

text \<open>\<open>storeEmailLambda.addEventSource( new SnsEventSource( props.emailLambdaSnsTopic ) )\<close>\<close>

definition lambda_event_sources :: "LambdaConstructProps \<Rightarrow> (lambda_fn \<times> topic) list" where
  "lambda_event_sources props = [(storeEmailLambda, emailLambdaSnsTopic props)]"

subsection \<open>Grants\<close>

text \<open>
  Every \<open>grant...\<close> call and every \<open>addToRolePolicy\<close> call of the construct, in the
  order of the source. A grant names the function whose execution role receives it.
\<close>

datatype aws_resource = Table table_id | EmailBucket | SesIdentity | AnyResource

datatype grant =
    grantReadData table_id lambda_fn
  | grantWriteData table_id lambda_fn
  | grantReadWriteData table_id lambda_fn
  | grantRead lambda_fn
  | grantReadWrite lambda_fn
  | grantDelete lambda_fn
  | addToRolePolicy lambda_fn "string list" "aws_resource list"

definition lambda_grants :: "grant list" where
  "lambda_grants =
    [ grantReadData disposableAddressesTable incomingMailCheckLambda,
      grantReadData disposableReplyAddressesTable incomingMailCheckLambda,
      grantReadWriteData disposableReplyAddressesTable storeEmailLambda,
      grantReadWrite storeEmailLambda,
      grantWriteData disposableEmailsTable storeEmailLambda,
      grantReadData disposableAddressesTable storeEmailLambda,
      addToRolePolicy storeEmailLambda [''ses:SendRawEmail''] [AnyResource],
      grantReadWriteData disposableAddressesTable createEmailLambda,
      grantReadData disposableAddressesTable getEmailsListLambda,
      grantReadData disposableEmailsTable getEmailsListLambda,
      grantReadWriteData disposableEmailsTable getEmailFileLambda,
      grantReadData disposableAddressesTable getEmailFileLambda,
      grantRead getEmailFileLambda,
      grantReadWriteData disposableReplyAddressesTable cleanUpLambda,
      grantReadWriteData disposableAddressesTable cleanUpLambda,
      grantReadWriteData disposableEmailsTable cleanUpLambda,
      grantDelete cleanUpLambda,
      grantReadData disposableAddressesTable sendEmailLambda,
      grantReadData disposableEmailsTable sendEmailLambda,
      addToRolePolicy sendEmailLambda [''ses:SendRawEmail''] [AnyResource],
      grantReadWriteData disposableAddressesTable changeAddressSettingsLambda ]"

text \<open>
  What the grant methods of the provisioning library put into a role's policy. The
  action lists are the library's (they are not part of the repository): read access to a
  table, write access to a table, and the read, put and delete actions of a bucket.
\<close>

definition READ_DATA_ACTIONS :: "string list" where
  "READ_DATA_ACTIONS =
    [''dynamodb:BatchGetItem'', ''dynamodb:GetRecords'', ''dynamodb:GetShardIterator'',
     ''dynamodb:Query'', ''dynamodb:GetItem'', ''dynamodb:Scan'',
     ''dynamodb:ConditionCheckItem'', ''dynamodb:DescribeTable'']"

definition WRITE_DATA_ACTIONS :: "string list" where
  "WRITE_DATA_ACTIONS =
    [''dynamodb:BatchWriteItem'', ''dynamodb:PutItem'', ''dynamodb:UpdateItem'',
     ''dynamodb:DeleteItem'', ''dynamodb:DescribeTable'']"

definition BUCKET_READ_ACTIONS :: "string list" where
  "BUCKET_READ_ACTIONS = [''s3:GetObject*'', ''s3:GetBucket*'', ''s3:List*'']"

definition BUCKET_DELETE_ACTIONS :: "string list" where
  "BUCKET_DELETE_ACTIONS = [''s3:DeleteObject*'']"

definition BUCKET_PUT_ACTIONS :: "string list" where
  "BUCKET_PUT_ACTIONS =
    [''s3:PutObject'', ''s3:PutObjectLegalHold'', ''s3:PutObjectRetention'',
     ''s3:PutObjectTagging'', ''s3:PutObjectVersionTagging'', ''s3:Abort*'']"

record policy_statement =
  grantee :: lambda_fn
  actions :: "string list"
  resources :: "aws_resource list"

fun statement_of :: "grant \<Rightarrow> policy_statement" where
  "statement_of (grantReadData t f) =
     \<lparr> grantee = f, actions = READ_DATA_ACTIONS, resources = [Table t] \<rparr>"
| "statement_of (grantWriteData t f) =
     \<lparr> grantee = f, actions = WRITE_DATA_ACTIONS, resources = [Table t] \<rparr>"
| "statement_of (grantReadWriteData t f) =
     \<lparr> grantee = f, actions = READ_DATA_ACTIONS @ WRITE_DATA_ACTIONS, resources = [Table t] \<rparr>"
| "statement_of (grantRead f) =
     \<lparr> grantee = f, actions = BUCKET_READ_ACTIONS, resources = [EmailBucket] \<rparr>"
| "statement_of (grantReadWrite f) =
     \<lparr> grantee = f,
       actions = BUCKET_READ_ACTIONS @ BUCKET_DELETE_ACTIONS @ BUCKET_PUT_ACTIONS,
       resources = [EmailBucket] \<rparr>"
| "statement_of (grantDelete f) =
     \<lparr> grantee = f, actions = BUCKET_DELETE_ACTIONS, resources = [EmailBucket] \<rparr>"
| "statement_of (addToRolePolicy f as rs) =
     \<lparr> grantee = f, actions = as, resources = rs \<rparr>"

text \<open>An action pattern ends in \<open>*\<close> (any suffix) or names one action.\<close>

definition action_matches :: "string \<Rightarrow> string \<Rightarrow> bool" where
  "action_matches pat a =
     (if pat \<noteq> [] \<and> last pat = CHR ''*'' then take (length pat - 1) a = butlast pat
      else pat = a)"

definition resource_matches :: "aws_resource \<Rightarrow> aws_resource \<Rightarrow> bool" where
  "resource_matches pat r = (pat = AnyResource \<or> pat = r)"

definition statement_allows :: "policy_statement \<Rightarrow> lambda_fn \<Rightarrow> string \<Rightarrow> aws_resource \<Rightarrow> bool" where
  "statement_allows st f a r =
     (grantee st = f \<and> list_ex (\<lambda>p. action_matches p a) (actions st)
        \<and> list_ex (\<lambda>p. resource_matches p r) (resources st))"

text \<open>
  A role starts with no permission on the tables, the bucket or the mail relay: a call
  is allowed when some statement of the role allows it.
\<close>

definition allowed :: "grant list \<Rightarrow> lambda_fn \<Rightarrow> string \<Rightarrow> aws_resource \<Rightarrow> bool" where
  "allowed gs f a r = list_ex (\<lambda>g. statement_allows (statement_of g) f a r) gs"

section \<open>The authorising API (\<^verbatim>\<open>lib/Constructs/AuthorisingApi.ts\<close>)\<close>

datatype http_method = GET | POST | OPTIONS

datatype integration = LambdaIntegration lambda_fn | MockIntegration

datatype authorization_type = NONE | COGNITO

record user_pool =
  userPoolName :: string
  selfSignUpEnabled :: bool

text \<open>\<open>resultsCacheTtl\<close> is a duration, held in seconds.\<close>

record authorizer_props =
  cognitoUserPools :: "user_pool list"
  resultsCacheTtl :: nat

record method_options =
  authorizationType :: authorization_type
  authorizer :: "authorizer_props option"

record cors_options =
  allowOrigins :: "string list"
  allowMethods :: "string list"
  allowCredentials :: bool

record api_method =
  resourcePath :: "string list"
  httpMethod :: http_method
  method_integration :: integration
  options :: method_options

record rest_api =
  restApiName :: string
  defaultCorsPreflightOptions :: "cors_options option"
  defaultMethodOptions :: "method_options option"
  api_resources :: "string list list"
  api_methods :: "api_method list"

text \<open>
  The provisioning library's resource tree. A resource is the list of its path parts
  from the root. When the API has default CORS preflight options, the library gives
  every resource (the root too) an \<open>OPTIONS\<close> method with a mock integration and no
  authorization; a method added without options of its own takes the API's default
  method options, and no authorization when there are none.
\<close>

definition no_authorization :: method_options where
  "no_authorization = \<lparr> authorizationType = NONE, authorizer = None \<rparr>"

definition preflight_methods :: "rest_api \<Rightarrow> string list \<Rightarrow> api_method list" where
  "preflight_methods a p =
     (case defaultCorsPreflightOptions a of
        None \<Rightarrow> []
      | Some c \<Rightarrow> [\<lparr> resourcePath = p, httpMethod = OPTIONS,
                     method_integration = MockIntegration, options = no_authorization \<rparr>])"

definition RestApi :: "string \<Rightarrow> cors_options option \<Rightarrow> method_options option \<Rightarrow> rest_api" where
  "RestApi nm cors dflt =
     (let a = \<lparr> restApiName = nm, defaultCorsPreflightOptions = cors,
                 defaultMethodOptions = dflt, api_resources = [[]], api_methods = [] \<rparr>
      in a\<lparr> api_methods := preflight_methods a [] \<rparr>)"

definition addResource :: "string list \<Rightarrow> string \<Rightarrow> rest_api \<Rightarrow> rest_api" where
  "addResource parent pathPart a =
     a\<lparr> api_resources := api_resources a @ [parent @ [pathPart]],
        api_methods := api_methods a @ preflight_methods a (parent @ [pathPart]) \<rparr>"

definition addMethod :: "string list \<Rightarrow> http_method \<Rightarrow> integration \<Rightarrow> rest_api \<Rightarrow> rest_api" where
  "addMethod p m i a =
     a\<lparr> api_methods := api_methods a @
          [\<lparr> resourcePath = p, httpMethod = m, method_integration = i,
             options = (case defaultMethodOptions a of None \<Rightarrow> no_authorization | Some opts \<Rightarrow> opts) \<rparr>] \<rparr>"

record ApiGatewayConstructProps =
  props_createEmailLambda :: lambda_fn
  props_getEmailFileLambda :: lambda_fn
  props_getEmailsListLambda :: lambda_fn
  props_sendEmailLambda :: lambda_fn
  props_changeAddressSettingsLambda :: lambda_fn

definition cognitoUserPool :: user_pool where
  "cognitoUserPool = \<lparr> userPoolName = ''disposable-email-user-pool'', selfSignUpEnabled = False \<rparr>"

definition cognitoAuthorizer :: authorizer_props where
  "cognitoAuthorizer = \<lparr> cognitoUserPools = [cognitoUserPool], resultsCacheTtl = 0 \<rparr>"

text \<open>The constructor of \<open>AuthorisingApiConstruct\<close>, statement by statement.\<close>

definition AuthorisingApiConstruct :: "constants_module \<Rightarrow> ApiGatewayConstructProps \<Rightarrow> rest_api" where
  "AuthorisingApiConstruct c props =
    (let apiGw = RestApi ''DisposableEmailApi''
           (Some \<lparr> allowOrigins = CORS_ALLOWED_ORIGINS c,
                   allowMethods = [''GET'', ''POST'', ''OPTIONS''],
                   allowCredentials = True \<rparr>)
           (Some \<lparr> authorizationType = COGNITO, authorizer = Some cognitoAuthorizer \<rparr>);
         apiGw = addResource [] ''create'' apiGw;
         apiGw = addMethod [''create''] GET (LambdaIntegration (props_createEmailLambda props)) apiGw;
         apiGw = addResource [] ''{destination}'' apiGw;
         apiGw = addMethod [''{destination}''] GET
                   (LambdaIntegration (props_getEmailsListLambda props)) apiGw;
         apiGw = addMethod [''{destination}''] POST
                   (LambdaIntegration (props_changeAddressSettingsLambda props)) apiGw;
         apiGw = addResource [''{destination}''] ''{messageId}'' apiGw;
         apiGw = addMethod [''{destination}'', ''{messageId}''] GET
                   (LambdaIntegration (props_getEmailFileLambda props)) apiGw;
         apiGw = addResource [] ''send'' apiGw;
         apiGw = addMethod [''send''] POST (LambdaIntegration (props_sendEmailLambda props)) apiGw
     in apiGw)"

section \<open>The stack (\<^verbatim>\<open>lib/disposable-email-cdk-stack.ts\<close>)\<close>

datatype service_principal = ses_amazonaws_com | sns_amazonaws_com | apigateway_amazonaws_com

datatype policy_target = BucketObjects | TopicArn topic

record resource_statement =
  rs_actions :: "string list"
  rs_resources :: "policy_target list"
  rs_principals :: "service_principal list"

datatype invocation_type = EVENT | REQUEST_RESPONSE

text \<open>
  A receipt rule action: a function call, or a deposit of the raw message into the mail
  bucket with an optional notification of a topic.
\<close>

datatype receipt_action = Actions_Lambda lambda_fn invocation_type | Actions_S3 "topic option"

record receipt_rule =
  rule_recipients :: "string list"
  rule_actions :: "receipt_action list"

record events_rule =
  schedule :: string
  eventPattern :: "string option"
  targets :: "lambda_fn list"

record cdk_stack =
  lambdaProps :: LambdaConstructProps
  stack_grants :: "grant list"
  eventSources :: "(lambda_fn \<times> topic) list"
  topicPolicy :: "resource_statement list"
  bucketPolicy :: "resource_statement list"
  apiGw :: rest_api
  ruleSet :: "receipt_rule list"
  cleanupRule :: events_rule

definition DisposableEmailCdkStack :: "constants_module \<Rightarrow> cdk_stack" where
  "DisposableEmailCdkStack c =
    (let lambdas = \<lparr> domain = EMAIL_DOMAIN_NAME c, mailboxTtl = MAILBOX_TTL c,
                       corsAllowedOrigins = CORS_ALLOWED_ORIGINS c,
                       emailLambdaSnsTopic = emailNotificationTopic \<rparr>
     in \<lparr> lambdaProps = lambdas,
          stack_grants = lambda_grants,
          eventSources = lambda_event_sources lambdas,
          topicPolicy =
            [\<lparr> rs_actions = [''sns:Publish''],
               rs_resources = [TopicArn emailNotificationTopic],
               rs_principals = [ses_amazonaws_com] \<rparr>],
          bucketPolicy =
            [\<lparr> rs_actions = [''s3:PutObject''],
               rs_resources = [BucketObjects],
               rs_principals = [ses_amazonaws_com] \<rparr>],
          apiGw = AuthorisingApiConstruct c
            \<lparr> props_createEmailLambda = createEmailLambda,
              props_getEmailFileLambda = getEmailFileLambda,
              props_getEmailsListLambda = getEmailsListLambda,
              props_sendEmailLambda = sendEmailLambda,
              props_changeAddressSettingsLambda = changeAddressSettingsLambda \<rparr>,
          ruleSet =
            [\<lparr> rule_recipients = [EMAIL_DOMAIN_NAME c],
               rule_actions =
                 [Actions_Lambda incomingMailCheckLambda REQUEST_RESPONSE,
                  Actions_S3 (Some emailNotificationTopic)] \<rparr>],
          cleanupRule =
            \<lparr> schedule = ''rate(30 minutes)'', eventPattern = None,
              targets = [cleanUpLambda] \<rparr> \<rparr>)"

section \<open>The platform: tables, bucket, permissions\<close>

text \<open>
  The stored state of the deployed system: the items of the three tables and the objects
  of the mail bucket. What a key-value table does with an item is fixed by the key
  schema that \<open>StorageConstruct\<close> declares for it: the key of an item is the value of
  its partition key attribute, together with the value of its sort key attribute when
  the table has one, and a table holds at most one item for a key.
\<close>

datatype attribute_value = S string | N nat

type_synonym item = "(string \<times> attribute_value) list"

type_synonym key = "attribute_value \<times> attribute_value option"

fun type_of :: "attribute_value \<Rightarrow> attribute_type" where
  "type_of (S v) = STRING"
| "type_of (N v) = NUMBER"

definition key_value :: "key_attribute \<Rightarrow> item \<Rightarrow> attribute_value option" where
  "key_value ka it =
     (case map_of it (attr_name ka) of
        None \<Rightarrow> None
      | Some v \<Rightarrow> if type_of v = attr_type ka then Some v else None)"

definition key_of :: "table_props \<Rightarrow> item \<Rightarrow> key option" where
  "key_of tp it =
     (case key_value (partitionKey tp) it of
        None \<Rightarrow> None
      | Some p \<Rightarrow>
          (case sortKey tp of
             None \<Rightarrow> Some (p, None)
           | Some sk \<Rightarrow>
               (case key_value sk it of None \<Rightarrow> None | Some s \<Rightarrow> Some (p, Some s))))"

definition key_names :: "table_props \<Rightarrow> string list" where
  "key_names tp =
     attr_name (partitionKey tp) # (case sortKey tp of None \<Rightarrow> [] | Some sk \<Rightarrow> [attr_name sk])"

definition key_item :: "table_props \<Rightarrow> key \<Rightarrow> item" where
  "key_item tp k =
     (attr_name (partitionKey tp), fst k) #
       (case (sortKey tp, snd k) of (Some sk, Some s) \<Rightarrow> [(attr_name sk, s)] | _ \<Rightarrow> [])"

definition set_attr :: "string \<Rightarrow> attribute_value \<Rightarrow> item \<Rightarrow> item" where
  "set_attr a v it = (a, v) # filter (\<lambda>p. fst p \<noteq> a) it"

definition get_item :: "table_props \<Rightarrow> key \<Rightarrow> item list \<Rightarrow> item option" where
  "get_item tp k tbl = find (\<lambda>i. key_of tp i = Some k) tbl"

definition query :: "table_props \<Rightarrow> attribute_value \<Rightarrow> item list \<Rightarrow> item list" where
  "query tp p tbl = filter (\<lambda>i. map_option fst (key_of tp i) = Some p) tbl"

definition put_item :: "table_props \<Rightarrow> item \<Rightarrow> item list \<Rightarrow> item list" where
  "put_item tp it tbl = filter (\<lambda>i. key_of tp i \<noteq> key_of tp it) tbl @ [it]"

definition delete_item :: "table_props \<Rightarrow> key \<Rightarrow> item list \<Rightarrow> item list" where
  "delete_item tp k tbl = filter (\<lambda>i. key_of tp i \<noteq> Some k) tbl"

record world =
  addresses :: "item list"
  emails :: "item list"
  replyAddresses :: "item list"
  objects :: "(string \<times> string) list"

fun table_of :: "table_id \<Rightarrow> world \<Rightarrow> item list" where
  "table_of disposableAddressesTable w = addresses w"
| "table_of disposableEmailsTable w = emails w"
| "table_of disposableReplyAddressesTable w = replyAddresses w"

fun set_table :: "table_id \<Rightarrow> item list \<Rightarrow> world \<Rightarrow> world" where
  "set_table disposableAddressesTable tbl w = w\<lparr> addresses := tbl \<rparr>"
| "set_table disposableEmailsTable tbl w = w\<lparr> emails := tbl \<rparr>"
| "set_table disposableReplyAddressesTable tbl w = w\<lparr> replyAddresses := tbl \<rparr>"

definition put_object :: "string \<Rightarrow> string \<Rightarrow> (string \<times> string) list \<Rightarrow> (string \<times> string) list" where
  "put_object k v os = filter (\<lambda>p. fst p \<noteq> k) os @ [(k, v)]"

definition delete_object :: "string \<Rightarrow> (string \<times> string) list \<Rightarrow> (string \<times> string) list" where
  "delete_object k os = filter (\<lambda>p. fst p \<noteq> k) os"

text \<open>
  The calls a function's code can make on the platform. \<open>PutItem\<close> carries the flag of
  a conditional write (write only when the table has no item for the key);
  \<open>UpdateItem\<close> sets one attribute of the item for a key, creating the item when there
  is none.
\<close>

datatype request =
    GetItem table_id key
  | Query table_id attribute_value
  | Scan table_id
  | PutItem table_id item bool
  | UpdateItem table_id key string attribute_value
  | DeleteItem table_id key
  | GetObject string
  | PutObject string string
  | DeleteObject string
  | SendRawEmail string string string

datatype response =
    AccessDenied
  | ValidationException
  | ConditionalCheckFailed
  | Succeeded
  | ItemResult "item option"
  | ItemsResult "item list"
  | ObjectResult "string option"
  | SendResult bool

fun required_action :: "request \<Rightarrow> string \<times> aws_resource" where
  "required_action (GetItem t k) = (''dynamodb:GetItem'', Table t)"
| "required_action (Query t p) = (''dynamodb:Query'', Table t)"
| "required_action (Scan t) = (''dynamodb:Scan'', Table t)"
| "required_action (PutItem t it c) = (''dynamodb:PutItem'', Table t)"
| "required_action (UpdateItem t k a v) = (''dynamodb:UpdateItem'', Table t)"
| "required_action (DeleteItem t k) = (''dynamodb:DeleteItem'', Table t)"
| "required_action (GetObject k) = (''s3:GetObject'', EmailBucket)"
| "required_action (PutObject k v) = (''s3:PutObject'', EmailBucket)"
| "required_action (DeleteObject k) = (''s3:DeleteObject'', EmailBucket)"
| "required_action (SendRawEmail src dst raw) = (''ses:SendRawEmail'', SesIdentity)"

text \<open>
  The outbound relay is outside the system: whether it delivers a message is a
  parameter \<open>relay\<close> of everything that runs code.
\<close>

type_synonym relay = "string \<times> string \<times> string \<Rightarrow> bool"

fun perform :: "relay \<Rightarrow> request \<Rightarrow> world \<Rightarrow> response \<times> world" where
  "perform relay (GetItem t k) w = (ItemResult (get_item (StorageConstruct t) k (table_of t w)), w)"
| "perform relay (Query t p) w = (ItemsResult (query (StorageConstruct t) p (table_of t w)), w)"
| "perform relay (Scan t) w = (ItemsResult (table_of t w), w)"
| "perform relay (PutItem t it c) w =
     (case key_of (StorageConstruct t) it of
        None \<Rightarrow> (ValidationException, w)
      | Some k \<Rightarrow>
          if c \<and> get_item (StorageConstruct t) k (table_of t w) \<noteq> None
          then (ConditionalCheckFailed, w)
          else (Succeeded, set_table t (put_item (StorageConstruct t) it (table_of t w)) w))"
| "perform relay (UpdateItem t k a v) w =
     (if a \<in> set (key_names (StorageConstruct t))
          \<or> key_of (StorageConstruct t) (key_item (StorageConstruct t) k) \<noteq> Some k
      then (ValidationException, w)
      else (Succeeded,
            set_table t
              (put_item (StorageConstruct t)
                 (set_attr a v
                    (case get_item (StorageConstruct t) k (table_of t w) of
                       None \<Rightarrow> key_item (StorageConstruct t) k
                     | Some it \<Rightarrow> it))
                 (table_of t w)) w))"
| "perform relay (DeleteItem t k) w =
     (Succeeded, set_table t (delete_item (StorageConstruct t) k (table_of t w)) w)"
| "perform relay (GetObject k) w = (ObjectResult (map_of (objects w) k), w)"
| "perform relay (PutObject k v) w = (Succeeded, w\<lparr> objects := put_object k v (objects w) \<rparr>)"
| "perform relay (DeleteObject k) w = (Succeeded, w\<lparr> objects := delete_object k (objects w) \<rparr>)"
| "perform relay (SendRawEmail src dst raw) w = (SendResult (relay (src, dst, raw)), w)"

text \<open>A call made by the code of function \<open>f\<close>: refused unless the role of \<open>f\<close> allows it.\<close>

definition call :: "grant list \<Rightarrow> relay \<Rightarrow> lambda_fn \<Rightarrow> request \<Rightarrow> world \<Rightarrow> response \<times> world" where
  "call gs relay f rq w =
     (if allowed gs f (fst (required_action rq)) (snd (required_action rq))
      then perform relay rq w
      else (AccessDenied, w))"

subsection \<open>Handler code\<close>

text \<open>
  The handlers themselves (\<^verbatim>\<open>src/*Function/\<close>) are not part of the sources at hand. A
  handler is any program that makes calls on the platform and chooses each next call
  from the responses so far: a tree of calls ending in a result. Running it as function
  \<open>f\<close> gives the result, the calls made with their responses, and the new state.
\<close>

datatype 'a prog = Return 'a | Call request "response \<Rightarrow> 'a prog"

datatype event =
    Invoked lambda_fn invocation_type
  | Called lambda_fn request response
  | ObjectCreated string
  | Published topic

primrec run :: "'a prog \<Rightarrow> grant list \<Rightarrow> relay \<Rightarrow> lambda_fn \<Rightarrow> world \<Rightarrow> 'a \<times> event list \<times> world" where
  "run (Return x) gs relay f w = (x, [], w)"
| "run (Call rq k) gs relay f w =
     (case call gs relay f rq w of
        (resp, w1) \<Rightarrow>
          (case run (k resp) gs relay f w1 of
             (x, tr, w2) \<Rightarrow> (x, Called f rq resp # tr, w2)))"

primrec bind :: "'a prog \<Rightarrow> ('a \<Rightarrow> 'b prog) \<Rightarrow> 'b prog" where
  "bind (Return x) g = g x"
| "bind (Call rq k) g = Call rq (\<lambda>resp. bind (k resp) g)"

section \<open>The platform: mail reception\<close>

text \<open>
  An inbound message as the mail transport hands it over. The transport keeps the raw
  content of a message under the message's identifier.
\<close>

record inbound =
  messageId :: string
  sender :: string
  recipients :: "string list"
  rawBytes :: string

datatype disposition = CONTINUE | STOP_RULE | STOP_RULE_SET

text \<open>
  The code deployed for the functions: for each function, the program it runs on a
  message. The result of a function called by a receipt rule is the disposition it
  returns; the result of a function that a topic notifies is ignored.
\<close>

type_synonym handlers = "lambda_fn \<Rightarrow> inbound \<Rightarrow> disposition prog"

text \<open>
  A recipient condition of a receipt rule is a full address, a domain (all addresses
  at that domain) or a domain with a leading dot (all addresses at its subdomains). A
  rule without recipient conditions applies to every message of the verified domains.
\<close>

definition domain_part :: "string \<Rightarrow> string" where
  "domain_part a = drop 1 (dropWhile (\<lambda>ch. ch \<noteq> CHR ''@'') a)"

definition recipient_matches :: "string \<Rightarrow> string \<Rightarrow> bool" where
  "recipient_matches entry rcpt =
     (rcpt = entry \<or> domain_part rcpt = entry
      \<or> (take 1 entry = ''.''
          \<and> drop (length (domain_part rcpt) - length entry) (domain_part rcpt) = entry))"

definition rule_applies :: "receipt_rule \<Rightarrow> inbound \<Rightarrow> bool" where
  "rule_applies r m =
     (rule_recipients r = []
      \<or> list_ex (\<lambda>rcpt. list_ex (\<lambda>entry. recipient_matches entry rcpt) (rule_recipients r))
           (recipients m))"

definition service_allowed ::
    "resource_statement list \<Rightarrow> service_principal \<Rightarrow> string \<Rightarrow> policy_target \<Rightarrow> bool" where
  "service_allowed ps sp a r =
     list_ex (\<lambda>st. sp \<in> set (rs_principals st) \<and> a \<in> set (rs_actions st)
                   \<and> r \<in> set (rs_resources st)) ps"

text \<open>
  Publishing to a topic invokes, as events, the functions that have the topic as an
  event source, each with the message.
\<close>

fun notify ::
    "grant list \<Rightarrow> relay \<Rightarrow> handlers \<Rightarrow> inbound \<Rightarrow> topic \<Rightarrow> (lambda_fn \<times> topic) list \<Rightarrow> world
      \<Rightarrow> event list \<times> world" where
  "notify gs relay H m t [] w = ([], w)"
| "notify gs relay H m t ((f, t') # es) w =
     (if t' = t
      then (case run (H f m) gs relay f w of
              (d, tr, w1) \<Rightarrow>
                (case notify gs relay H m t es w1 of
                   (tr2, w2) \<Rightarrow> (Invoked f EVENT # tr @ tr2, w2)))
      else notify gs relay H m t es w)"

datatype outcome = Finished | StoppedRule | StoppedRuleSet | ActionFailed

text \<open>
  The actions of a rule run in the order of the rule. A function action invoked as
  \<open>REQUEST_RESPONSE\<close> is waited for, and its disposition decides whether the rest of
  the rule (\<open>STOP_RULE\<close>) or of the rule set (\<open>STOP_RULE_SET\<close>) is skipped; invoked as
  \<open>EVENT\<close>, its result is not looked at. A bucket action writes the raw content under
  the message identifier, then publishes to its topic; both need the mail service to be
  allowed by the policy of the bucket and of the topic.
\<close>

fun run_actions ::
    "cdk_stack \<Rightarrow> relay \<Rightarrow> handlers \<Rightarrow> inbound \<Rightarrow> receipt_action list \<Rightarrow> world
      \<Rightarrow> outcome \<times> event list \<times> world" where
  "run_actions st relay H m [] w = (Finished, [], w)"
| "run_actions st relay H m (Actions_Lambda f it # as) w =
     (case run (H f m) (stack_grants st) relay f w of
        (d, tr, w1) \<Rightarrow>
          if it = REQUEST_RESPONSE \<and> d = STOP_RULE then (StoppedRule, Invoked f it # tr, w1)
          else if it = REQUEST_RESPONSE \<and> d = STOP_RULE_SET
          then (StoppedRuleSet, Invoked f it # tr, w1)
          else (case run_actions st relay H m as w1 of
                  (out, tr2, w2) \<Rightarrow> (out, Invoked f it # tr @ tr2, w2)))"
| "run_actions st relay H m (Actions_S3 tp # as) w =
     (if \<not> service_allowed (bucketPolicy st) ses_amazonaws_com ''s3:PutObject'' BucketObjects
      then (ActionFailed, [], w)
      else
        (let w1 = w\<lparr> objects := put_object (messageId m) (rawBytes m) (objects w) \<rparr> in
         case tp of
           None \<Rightarrow>
             (case run_actions st relay H m as w1 of
                (out, tr2, w2) \<Rightarrow> (out, ObjectCreated (messageId m) # tr2, w2))
         | Some t \<Rightarrow>
             if \<not> service_allowed (topicPolicy st) ses_amazonaws_com ''sns:Publish'' (TopicArn t)
             then (ActionFailed, [ObjectCreated (messageId m)], w1)
             else
               (case notify (stack_grants st) relay H m t (eventSources st) w1 of
                  (tr1, w2) \<Rightarrow>
                    (case run_actions st relay H m as w2 of
                       (out, tr2, w3) \<Rightarrow>
                         (out, ObjectCreated (messageId m) # Published t # tr1 @ tr2, w3)))))"

fun run_rules ::
    "cdk_stack \<Rightarrow> relay \<Rightarrow> handlers \<Rightarrow> inbound \<Rightarrow> receipt_rule list \<Rightarrow> world
      \<Rightarrow> event list \<times> world" where
  "run_rules st relay H m [] w = ([], w)"
| "run_rules st relay H m (r # rs) w =
     (if rule_applies r m
      then (case run_actions st relay H m (rule_actions r) w of
              (out, tr, w1) \<Rightarrow>
                if out = StoppedRuleSet \<or> out = ActionFailed then (tr, w1)
                else (case run_rules st relay H m rs w1 of (tr2, w2) \<Rightarrow> (tr @ tr2, w2)))
      else run_rules st relay H m rs w)"

definition receive :: "cdk_stack \<Rightarrow> relay \<Rightarrow> handlers \<Rightarrow> inbound \<Rightarrow> world \<Rightarrow> event list \<times> world" where
  "receive st relay H m w = run_rules st relay H m (ruleSet st) w"

section \<open>The platform: scheduled rules\<close>

text \<open>
  A schedule expression \<open>rate(value unit)\<close>: a positive whole number and a unit, which is
  singular exactly when the value is one. A rule with such a schedule invokes its
  targets once every period; the time is counted in minutes.
\<close>

datatype rate_unit = Minutes | Hours | Days

definition digit_value :: "char \<Rightarrow> nat option" where
  "digit_value ch =
     (let n = (of_char ch :: nat) in if 48 \<le> n \<and> n \<le> 57 then Some (n - 48) else None)"

fun parse_digits :: "nat \<Rightarrow> string \<Rightarrow> nat option" where
  "parse_digits acc [] = Some acc"
| "parse_digits acc (ch # cs) =
     (case digit_value ch of None \<Rightarrow> None | Some d \<Rightarrow> parse_digits (10 * acc + d) cs)"

definition parse_value :: "string \<Rightarrow> nat option" where
  "parse_value s = (if s = [] then None else parse_digits 0 s)"

definition parse_unit :: "nat \<Rightarrow> string \<Rightarrow> rate_unit option" where
  "parse_unit n u =
     (if n = 1 then
        (if u = ''minute'' then Some Minutes else if u = ''hour'' then Some Hours
         else if u = ''day'' then Some Days else None)
      else
        (if u = ''minutes'' then Some Minutes else if u = ''hours'' then Some Hours
         else if u = ''days'' then Some Days else None))"

definition parse_rate :: "string \<Rightarrow> (nat \<times> rate_unit) option" where
  "parse_rate s =
     (if take 5 s = ''rate('' \<and> s \<noteq> [] \<and> last s = CHR '')''
      then
        (let body = butlast (drop 5 s);
             v = takeWhile (\<lambda>ch. ch \<noteq> CHR '' '') body;
             u = drop 1 (dropWhile (\<lambda>ch. ch \<noteq> CHR '' '') body)
         in case parse_value v of
              None \<Rightarrow> None
            | Some n \<Rightarrow>
                if n = 0 then None
                else (case parse_unit n u of None \<Rightarrow> None | Some un \<Rightarrow> Some (n, un)))
      else None)"

fun period_minutes :: "nat \<times> rate_unit \<Rightarrow> nat" where
  "period_minutes (n, Minutes) = n"
| "period_minutes (n, Hours) = 60 * n"
| "period_minutes (n, Days) = 24 * 60 * n"

text \<open>The time of the run after a run at minute \<open>t\<close>, for a rule whose schedule is a rate.\<close>

definition next_run :: "events_rule \<Rightarrow> nat \<Rightarrow> nat option" where
  "next_run r t = map_option (\<lambda>p. t + period_minutes p) (parse_rate (schedule r))"

text \<open>Everything in the stack that invokes a function.\<close>

datatype trigger =
    ApiTrigger http_method "string list"
  | TopicTrigger topic
  | ReceiptTrigger invocation_type
  | ScheduleTrigger string "string option"

definition triggers :: "cdk_stack \<Rightarrow> lambda_fn \<Rightarrow> trigger list" where
  "triggers st f =
     map (\<lambda>am. ApiTrigger (httpMethod am) (resourcePath am))
       (filter (\<lambda>am. method_integration am = LambdaIntegration f) (api_methods (apiGw st)))
     @ map (\<lambda>p. TopicTrigger (snd p)) (filter (\<lambda>p. fst p = f) (eventSources st))
     @ concat (map (\<lambda>r. concat (map (\<lambda>a. case a of
                                         Actions_Lambda g it \<Rightarrow> if g = f then [ReceiptTrigger it] else []
                                       | Actions_S3 tp \<Rightarrow> []) (rule_actions r))) (ruleSet st))
     @ (if f \<in> set (targets (cleanupRule st))
        then [ScheduleTrigger (schedule (cleanupRule st)) (eventPattern (cleanupRule st))] else [])"

section \<open>The platform: request authorization\<close>

text \<open>
  Whether the gateway lets a request through to a method. A method without
  authorization admits every request. A method with a user-pool authorizer admits a
  request that carries a token, when the pool accepts the token now (\<open>valid\<close>), or
  when the authorizer still holds a cached acceptance of that token: one made at a time
  \<open>t0\<close> less than \<open>resultsCacheTtl\<close> seconds ago.
\<close>

definition cached :: "authorizer_props \<Rightarrow> (string \<times> nat) list \<Rightarrow> nat \<Rightarrow> string \<Rightarrow> bool" where
  "cached a cache now tok =
     list_ex (\<lambda>p. fst p = tok \<and> snd p \<le> now \<and> now < snd p + resultsCacheTtl a) cache"

definition method_admits ::
    "api_method \<Rightarrow> (string \<Rightarrow> bool) \<Rightarrow> (string \<times> nat) list \<Rightarrow> nat \<Rightarrow> string option \<Rightarrow> bool" where
  "method_admits am valid cache now tok =
     (case authorizationType (options am) of
        NONE \<Rightarrow> True
      | COGNITO \<Rightarrow>
          (case authorizer (options am) of
             None \<Rightarrow> False
           | Some a \<Rightarrow>
               (case tok of None \<Rightarrow> False | Some t \<Rightarrow> cached a cache now t \<or> valid t)))"

text \<open>The methods of the API that are not CORS preflight, with the handler each one calls.\<close>

definition endpoints :: "cdk_stack \<Rightarrow> api_method list" where
  "endpoints st = filter (\<lambda>am. httpMethod am \<noteq> OPTIONS) (api_methods (apiGw st))"

definition handler_of :: "cdk_stack \<Rightarrow> api_method \<Rightarrow> string option" where
  "handler_of st am =
     (case method_integration am of
        MockIntegration \<Rightarrow> None
      | LambdaIntegration f \<Rightarrow> Some (handler (lambda_function (lambdaProps st) f)))"

section \<open>The components of the service\<close>

text \<open>
  The code of the handlers is not among the sources at hand; what the components do is
  taken from the specification (sections 3 and 4) and written as programs over the
  platform calls, so that each runs under the role of the function that hosts it and
  against the tables as \<open>StorageConstruct\<close> declares them.
\<close>

datatype error = ValidationError | NotFound | Conflict | TransientStorageError | NoFreshAddress

fun for_each :: "'a list \<Rightarrow> ('a \<Rightarrow> unit prog) \<Rightarrow> unit prog" where
  "for_each [] body = Return ()"
| "for_each (x # xs) body = bind (body x) (\<lambda>u. for_each xs body)"

text \<open>Steps in a row, stopping at the first that fails.\<close>

fun in_sequence :: "(error + unit) prog list \<Rightarrow> (error + unit) prog" where
  "in_sequence [] = Return (Inr ())"
| "in_sequence (p # ps) =
     bind p (\<lambda>r. case r of Inl e \<Rightarrow> Return (Inl e) | Inr u \<Rightarrow> in_sequence ps)"

definition env :: "cdk_stack \<Rightarrow> lambda_fn \<Rightarrow> string \<Rightarrow> string option" where
  "env st f k = map_of (environment (lambda_function (lambdaProps st) f)) k"

subsection \<open>Address Registry\<close>

text \<open>
  Modelled from the spec: the Disposable Address record of section 3, as an item of the
  addresses table with the attributes \<open>address\<close>, \<open>ownerToken\<close>, \<open>createdAt\<close> and
  \<open>expiresAt\<close>, where \<open>expiresAt = createdAt + mailboxTtl\<close> at creation.
\<close>

definition new_address :: "string \<Rightarrow> string \<Rightarrow> nat \<Rightarrow> nat \<Rightarrow> item" where
  "new_address a owner now ttl =
     [(''address'', S a), (''ownerToken'', S owner), (''createdAt'', N now),
      (''expiresAt'', N (now + ttl))]"

text \<open>Modelled from the spec: the \<open>expiresAt\<close> timestamp of a Disposable Address record.\<close>

definition expiresAt :: "item \<Rightarrow> nat option" where
  "expiresAt it = (case map_of it ''expiresAt'' of Some (N e) \<Rightarrow> Some e | _ \<Rightarrow> None)"

text \<open>
  Modelled from the spec: the generation step of \<open>create\<close> (section 4.1), "generates a
  collision-free random local-part under an allowed domain, sets expiresAt = now +
  mailboxTtl, persists, returns the record plus the full current list of addresses for
  ownerToken". The random source is the list \<open>draws\<close> of candidate local-parts; a
  candidate is taken by an insert-if-absent write, so a colliding candidate is skipped
  and never overwrites a record. The spec does not say what happens when the random
  source is exhausted; the model then fails with \<open>NoFreshAddress\<close>.
\<close>

fun create_fresh ::
    "string \<Rightarrow> nat \<Rightarrow> nat \<Rightarrow> string \<Rightarrow> string list \<Rightarrow> (error + item \<times> item list) prog" where
  "create_fresh dmn ttl now owner [] = Return (Inl NoFreshAddress)"
| "create_fresh dmn ttl now owner (d # ds) =
     Call (PutItem disposableAddressesTable (new_address (d @ ''@'' @ dmn) owner now ttl) True)
       (\<lambda>r. case r of
          Succeeded \<Rightarrow>
            Call (Scan disposableAddressesTable)
              (\<lambda>r2. case r2 of
                 ItemsResult its \<Rightarrow>
                   Return (Inr (new_address (d @ ''@'' @ dmn) owner now ttl,
                                filter (\<lambda>it. map_of it ''ownerToken'' = Some (S owner)) its))
               | _ \<Rightarrow> Return (Inl TransientStorageError))
        | ConditionalCheckFailed \<Rightarrow> create_fresh dmn ttl now owner ds
        | _ \<Rightarrow> Return (Inl TransientStorageError))"

text \<open>
  Modelled from the spec: \<open>create(ownerToken, domainConstraint)\<close> of section 4.1, which
  "fails with ValidationError if domainConstraint does not match the configured
  domain". The configured domain and mailbox TTL are what the stack hands to the
  hosting function in its environment (\<open>valid_domains\<close>, \<open>mailbox_ttl\<close>).
\<close>

definition create ::
    "cdk_stack \<Rightarrow> nat \<Rightarrow> string list \<Rightarrow> string \<Rightarrow> string \<Rightarrow> (error + item \<times> item list) prog" where
  "create st now draws ownerToken domainConstraint =
     (case env st createEmailLambda ''valid_domains'' of
        None \<Rightarrow> Return (Inl ValidationError)
      | Some dmn \<Rightarrow>
          (case Option.bind (env st createEmailLambda ''mailbox_ttl'') parse_value of
             None \<Rightarrow> Return (Inl ValidationError)
           | Some ttl \<Rightarrow>
               if domainConstraint \<noteq> dmn then Return (Inl ValidationError)
               else create_fresh dmn ttl now ownerToken draws))"

text \<open>Modelled from the spec: \<open>get(address)\<close> of section 4.1, the record or \<open>NotFound\<close>.\<close>

definition registry_get :: "string \<Rightarrow> (error + item) prog" where
  "registry_get a =
     Call (GetItem disposableAddressesTable (S a, None))
       (\<lambda>r. case r of
          ItemResult None \<Rightarrow> Return (Inl NotFound)
        | ItemResult (Some it) \<Rightarrow> Return (Inr it)
        | _ \<Rightarrow> Return (Inl TransientStorageError))"

text \<open>
  Modelled from the spec: \<open>updateSettings(address, { extendTtlBy?, delete? })\<close> of
  section 4.1, which "extends expiresAt or marks for deletion", returns the updated
  record and "fails with NotFound if address does not exist". An extension is a
  duration, so a natural number; the deletion mark is a flag on the record (section 3:
  "mutated (ttl extension, deletion flag) by settings-change request").
\<close>

definition apply_settings :: "nat option \<Rightarrow> bool \<Rightarrow> nat \<Rightarrow> item \<Rightarrow> item" where
  "apply_settings extendTtlBy del e it =
     (let it1 = (case extendTtlBy of
                   None \<Rightarrow> it
                 | Some n \<Rightarrow> set_attr ''expiresAt'' (N (e + n)) it)
      in if del then set_attr ''markedForDeletion'' (N 1) it1 else it1)"

text \<open>
  Modelled from the spec: the operation \<open>updateSettings\<close> itself: look the record up,
  apply the settings to it, write it back.
\<close>

definition updateSettings :: "string \<Rightarrow> nat option \<Rightarrow> bool \<Rightarrow> (error + item) prog" where
  "updateSettings a extendTtlBy del =
     Call (GetItem disposableAddressesTable (S a, None))
       (\<lambda>r. case r of
          ItemResult None \<Rightarrow> Return (Inl NotFound)
        | ItemResult (Some it) \<Rightarrow>
            (case expiresAt it of
               None \<Rightarrow> Return (Inl ValidationError)
             | Some e \<Rightarrow>
                 Call (PutItem disposableAddressesTable (apply_settings extendTtlBy del e it) False)
                   (\<lambda>r2. case r2 of
                      Succeeded \<Rightarrow> Return (Inr (apply_settings extendTtlBy del e it))
                    | _ \<Rightarrow> Return (Inl TransientStorageError)))
        | _ \<Rightarrow> Return (Inl TransientStorageError))"

text \<open>
  Modelled from the spec: \<open>listExpired(asOf)\<close> of section 4.1, "all addresses whose
  expiresAt <= asOf".
\<close>

definition listExpired :: "nat \<Rightarrow> (error + item list) prog" where
  "listExpired asOf =
     Call (Scan disposableAddressesTable)
       (\<lambda>r. case r of
          ItemsResult its \<Rightarrow>
            Return (Inr (filter (\<lambda>it. case expiresAt it of None \<Rightarrow> False | Some e \<Rightarrow> e \<le> asOf) its))
        | _ \<Rightarrow> Return (Inl TransientStorageError))"

text \<open>
  Modelled from the spec: \<open>delete(address)\<close> of section 4.1, "idempotent; removing a
  non-existent address is not an error".
\<close>

definition registry_delete :: "string \<Rightarrow> (error + unit) prog" where
  "registry_delete a =
     Call (DeleteItem disposableAddressesTable (S a, None))
       (\<lambda>r. case r of Succeeded \<Rightarrow> Return (Inr ()) | _ \<Rightarrow> Return (Inl TransientStorageError))"

subsection \<open>Reply-Proxy Registry\<close>

text \<open>
  Modelled from the spec: \<open>deleteByParent(parentDisposableAddress)\<close> of section 4.2,
  which "cascades deletion of all proxy mappings for that parent". A mapping is an item
  of the reply-addresses table with the attributes \<open>proxyAddress\<close>,
  \<open>realExternalAddress\<close> and \<open>parentDisposableAddress\<close> (section 3).
\<close>

definition deleteByParent :: "string \<Rightarrow> (error + unit) prog" where
  "deleteByParent parent =
     Call (Scan disposableReplyAddressesTable)
       (\<lambda>r. case r of
          ItemsResult its \<Rightarrow>
            bind (for_each (filter (\<lambda>it. map_of it ''parentDisposableAddress'' = Some (S parent)) its)
                    (\<lambda>it. case map_of it ''proxyAddress'' of
                            None \<Rightarrow> Return ()
                          | Some k \<Rightarrow> Call (DeleteItem disposableReplyAddressesTable (k, None))
                                        (\<lambda>r2. Return ())))
              (\<lambda>u. Return (Inr ()))
        | _ \<Rightarrow> Return (Inl TransientStorageError))"

subsection \<open>Mailbox Store\<close>

text \<open>
  Modelled from the spec: the Stored Email record of section 3, an item of the emails
  table. Its raw content is held in "message-addressed blob storage": the record's
  \<open>rawContentRef\<close> is the message identifier, the key under which the mail transport
  deposits the raw content (section 6), so the content a record owns is that deposit.
\<close>

definition content_key :: "string \<Rightarrow> string \<Rightarrow> string" where
  "content_key destination mid = mid"

definition stored_email :: "string \<Rightarrow> string \<Rightarrow> string \<Rightarrow> string \<Rightarrow> nat \<Rightarrow> item" where
  "stored_email destination mid sndr subject receivedAt =
     [(''destination'', S destination), (''messageId'', S mid), (''sender'', S sndr),
      (''subject'', S subject), (''receivedAt'', N receivedAt),
      (''rawContentRef'', S (content_key destination mid))]"

text \<open>
  Modelled from the spec: \<open>put(destination, messageId, sender, subject, receivedAt,
  rawContent)\<close> of section 4.3, which "fails with Conflict if (destination, messageId)
  already exists", by the store's insert-if-absent write (section 5: "unique-key
  enforcement for Mailbox Store put").
\<close>

definition mailbox_put ::
    "string \<Rightarrow> string \<Rightarrow> string \<Rightarrow> string \<Rightarrow> nat \<Rightarrow> string \<Rightarrow> (error + item) prog" where
  "mailbox_put destination mid sndr subject receivedAt rawContent =
     Call (PutItem disposableEmailsTable (stored_email destination mid sndr subject receivedAt) True)
       (\<lambda>r. case r of
          Succeeded \<Rightarrow>
            Call (PutObject (content_key destination mid) rawContent)
              (\<lambda>r2. case r2 of
                 Succeeded \<Rightarrow> Return (Inr (stored_email destination mid sndr subject receivedAt))
               | _ \<Rightarrow> Return (Inl TransientStorageError))
        | ConditionalCheckFailed \<Rightarrow> Return (Inl Conflict)
        | _ \<Rightarrow> Return (Inl TransientStorageError))"

text \<open>
  Modelled from the spec: \<open>deleteAll(destination)\<close> of section 4.3, which "cascades
  deletion of all Stored Email rows and their raw content blobs for that destination".
\<close>

definition delete_row :: "item \<Rightarrow> unit prog" where
  "delete_row it =
     (case map_of it ''rawContentRef'' of
        Some (S ref) \<Rightarrow>
          Call (DeleteObject ref)
            (\<lambda>r. case key_of (StorageConstruct disposableEmailsTable) it of
                   None \<Rightarrow> Return ()
                 | Some k \<Rightarrow> Call (DeleteItem disposableEmailsTable k) (\<lambda>r2. Return ()))
      | _ \<Rightarrow>
          (case key_of (StorageConstruct disposableEmailsTable) it of
             None \<Rightarrow> Return ()
           | Some k \<Rightarrow> Call (DeleteItem disposableEmailsTable k) (\<lambda>r2. Return ())))"

definition deleteAll :: "string \<Rightarrow> (error + unit) prog" where
  "deleteAll destination =
     Call (Query disposableEmailsTable (S destination))
       (\<lambda>r. case r of
          ItemsResult its \<Rightarrow> bind (for_each its delete_row) (\<lambda>u. Return (Inr ()))
        | _ \<Rightarrow> Return (Inl TransientStorageError))"

subsection \<open>Mail Storage Pipeline\<close>

text \<open>
  Modelled from the spec: the Mail Storage Pipeline of section 4.5, for one recipient. A
  recipient that is a live Disposable Address (section 4.4: not expired) has the
  message put into the Mailbox Store, a \<open>Conflict\<close> counting as already processed. A
  recipient that is a Reply-Proxy Address has the message forwarded through the relay
  to the real external address, with the parent disposable address as sender; whether
  the relay delivers does not alter anything else. The subject is read from the raw
  content by \<open>subject_of\<close>.
\<close>

definition store_recipient :: "nat \<Rightarrow> (string \<Rightarrow> string) \<Rightarrow> inbound \<Rightarrow> string \<Rightarrow> unit prog" where
  "store_recipient now subject_of m rcpt =
     Call (GetItem disposableAddressesTable (S rcpt, None))
       (\<lambda>r. if (case r of
                  ItemResult (Some it) \<Rightarrow> (case expiresAt it of None \<Rightarrow> False | Some e \<Rightarrow> now < e)
                | _ \<Rightarrow> False)
             then bind (mailbox_put rcpt (messageId m) (sender m) (subject_of (rawBytes m)) now
                          (rawBytes m))
                    (\<lambda>res. Return ())
             else
               Call (GetItem disposableReplyAddressesTable (S rcpt, None))
                 (\<lambda>r2. case r2 of
                    ItemResult (Some px) \<Rightarrow>
                      (case (map_of px ''parentDisposableAddress'', map_of px ''realExternalAddress'') of
                         (Some (S parent), Some (S real)) \<Rightarrow>
                           Call (SendRawEmail parent real (rawBytes m)) (\<lambda>r3. Return ())
                       | _ \<Rightarrow> Return ())
                  | _ \<Rightarrow> Return ()))"

text \<open>
  Modelled from the spec: the Mail Storage Pipeline of section 4.5, "for each ACCEPT-ed
  recipient", as the handler of the function that the topic notifies.
\<close>

definition storeEmail_pipeline :: "nat \<Rightarrow> (string \<Rightarrow> string) \<Rightarrow> inbound \<Rightarrow> disposition prog" where
  "storeEmail_pipeline now subject_of m =
     bind (for_each (recipients m) (store_recipient now subject_of m)) (\<lambda>u. Return CONTINUE)"

subsection \<open>Retention Sweeper\<close>

text \<open>
  Modelled from the spec: the cascade of section 4.6 for one expired address,
  "Mailbox Store.deleteAll(address), Reply-Proxy Registry.deleteByParent(address), then
  Address Registry.delete(address) - in this order".
\<close>

definition cascade_steps :: "string \<Rightarrow> (error + unit) prog list" where
  "cascade_steps a = [deleteAll a, deleteByParent a, registry_delete a]"

text \<open>
  Modelled from the spec: what the Retention Sweeper does "for each expired address"
  (section 4.6): the cascade for the address of the record, its result not looked at, so
  that "failure of one address's cascade must not abort processing of other expired
  addresses".
\<close>

definition sweep_one :: "item \<Rightarrow> unit prog" where
  "sweep_one it =
     (case map_of it ''address'' of
        Some (S a) \<Rightarrow> bind (in_sequence (cascade_steps a)) (\<lambda>res. Return ())
      | _ \<Rightarrow> Return ())"



section \<open>Notions used in the statements\<close>

text \<open>A message is to the email domain when the receipt rule's recipient condition matches it.\<close>

definition to_email_domain :: "constants_module \<Rightarrow> inbound \<Rightarrow> bool" where
  "to_email_domain c m =
     list_ex (\<lambda>rcpt. recipient_matches (EMAIL_DOMAIN_NAME c) rcpt) (recipients m)"

text \<open>An event is a platform call made by the code of function \<open>f\<close>.\<close>

fun called_by :: "lambda_fn \<Rightarrow> event \<Rightarrow> bool" where
  "called_by f (Called g rq resp) = (g = f)"
| "called_by f (Invoked g it) = False"
| "called_by f (ObjectCreated k) = False"
| "called_by f (Published t) = False"

text \<open>The state before anything is stored, and a filled-in constants module.\<close>

definition empty_world :: world where
  "empty_world = \<lparr> addresses = [], emails = [], replyAddresses = [], objects = [] \<rparr>"

definition example_constants :: constants_module where
  "example_constants = constants\<lparr> HOSTED_ZONE_NAME := ''example.com'',
     EMAIL_DOMAIN_NAME := ''mail.example.com'', FRONTEND_DOMAIN_NAME := ''example.com'' \<rparr>"

definition example_message :: inbound where
  "example_message = \<lparr> messageId = ''m1'', sender = ''alice@elsewhere.org'',
     recipients = [''x7@mail.example.com''], rawBytes = ''Subject: hello'' \<rparr>"

text \<open>
  A table holds at most one item for a key, and every item has a key: the state of a
  table that the platform maintains for the key schema declared for it.
\<close>

definition keys_unique :: "table_props \<Rightarrow> item list \<Rightarrow> bool" where
  "keys_unique tp tbl = (distinct (map (key_of tp) tbl) \<and> None \<notin> set (map (key_of tp) tbl))"

definition world_ok :: "world \<Rightarrow> bool" where
  "world_ok w =
     (keys_unique (StorageConstruct disposableAddressesTable) (addresses w)
      \<and> keys_unique (StorageConstruct disposableEmailsTable) (emails w)
      \<and> keys_unique (StorageConstruct disposableReplyAddressesTable) (replyAddresses w))"

text \<open>
  The states the deployed system can be in: it starts with nothing stored; a message
  arrives and is processed by the receipt rules, whatever the handlers are; or one of
  the functions runs some code, whatever the code is, under its role.
\<close>

inductive reachable :: "cdk_stack \<Rightarrow> world \<Rightarrow> bool" for st :: cdk_stack where
  initial: "reachable st empty_world"
| mail: "reachable st w \<Longrightarrow> receive st relay H m w = (tr, w') \<Longrightarrow> reachable st w'"
| code: "reachable st w \<Longrightarrow> run (p :: unit prog) (stack_grants st) relay f w = (x, tr, w')
           \<Longrightarrow> reachable st w'"

text \<open>
  A state with one address and one stored mail, for the examples: the address
  \<open>x7@mail.example.com\<close> created at second 1000 with a lifetime of a day, holding the
  message \<open>m1\<close>.
\<close>

definition example_world :: world where
  "example_world =
     \<lparr> addresses = [new_address ''x7@mail.example.com'' ''owner-1'' 1000 86400],
       emails = [stored_email ''x7@mail.example.com'' ''m1'' ''alice@elsewhere.org'' ''hello'' 2000],
       replyAddresses = [],
       objects = [(''m1'', ''Subject: hello'')] \<rparr>"

text \<open>
  The operations of the Address Registry (section 4.1 of the spec), each made by some
  function of the stack, and what a sequence of them leaves behind.
\<close>

datatype registry_op =
    Create nat "string list" string string
  | Get string
  | UpdateSettings string "nat option" bool
  | ListExpired nat
  | Delete string

fun registry_call :: "cdk_stack \<Rightarrow> registry_op \<Rightarrow> unit prog" where
  "registry_call st (Create now draws ownerToken domainConstraint) =
     bind (create st now draws ownerToken domainConstraint) (\<lambda>res. Return ())"
| "registry_call st (Get a) = bind (registry_get a) (\<lambda>res. Return ())"
| "registry_call st (UpdateSettings a extendTtlBy del) =
     bind (updateSettings a extendTtlBy del) (\<lambda>res. Return ())"
| "registry_call st (ListExpired asOf) = bind (listExpired asOf) (\<lambda>res. Return ())"
| "registry_call st (Delete a) = bind (registry_delete a) (\<lambda>res. Return ())"

fun apply_ops :: "cdk_stack \<Rightarrow> relay \<Rightarrow> (lambda_fn \<times> registry_op) list \<Rightarrow> world \<Rightarrow> world" where
  "apply_ops st relay [] w = w"
| "apply_ops st relay ((f, op) # ops) w =
     apply_ops st relay ops (snd (snd (run (registry_call st op) (stack_grants st) relay f w)))"

text \<open>The \<open>expiresAt\<close> of the record of an address, when the registry has one.\<close>

definition expiry_of :: "world \<Rightarrow> string \<Rightarrow> nat option" where
  "expiry_of w a =
     (case get_item (StorageConstruct disposableAddressesTable) (S a, None) (addresses w) of
        None \<Rightarrow> None
      | Some it \<Rightarrow> expiresAt it)"

text \<open>
  In a trace, nothing of the Mail Storage Pipeline (no invocation, no call it makes)
  comes before the deposit of the raw content of message \<open>mid\<close>; \<open>stored\<close> says
  whether the deposit has been seen.
\<close>

fun deposit_precedes_pipeline :: "string \<Rightarrow> bool \<Rightarrow> event list \<Rightarrow> bool" where
  "deposit_precedes_pipeline mid stored [] = True"
| "deposit_precedes_pipeline mid stored (ObjectCreated k # es) =
     deposit_precedes_pipeline mid (stored \<or> k = mid) es"
| "deposit_precedes_pipeline mid stored (Invoked f it # es) =
     ((if f = storeEmailLambda then stored else True) \<and> deposit_precedes_pipeline mid stored es)"
| "deposit_precedes_pipeline mid stored (Called f rq resp # es) =
     ((if f = storeEmailLambda then stored else True) \<and> deposit_precedes_pipeline mid stored es)"
| "deposit_precedes_pipeline mid stored (Published t # es) =
     deposit_precedes_pipeline mid stored es"

text \<open>Every call of a program satisfies a condition.\<close>

primrec calls_only :: "(request \<Rightarrow> bool) \<Rightarrow> 'a prog \<Rightarrow> bool" where
  "calls_only P (Return x) = True"
| "calls_only P (Call rq k) = (P rq \<and> (\<forall>resp. calls_only P (k resp)))"

text \<open>
  A state with a reply-proxy mapping for the example address, and a reply sent to the
  proxy address.
\<close>

definition example_proxy_world :: world where
  "example_proxy_world =
     example_world\<lparr> replyAddresses :=
       [[(''proxyAddress'', S ''p1@mail.example.com''),
         (''realExternalAddress'', S ''bob@elsewhere.org''),
         (''parentDisposableAddress'', S ''x7@mail.example.com'')]] \<rparr>"

definition example_reply :: inbound where
  "example_reply = \<lparr> messageId = ''m2'', sender = ''x7@mail.example.com'',
     recipients = [''p1@mail.example.com''], rawBytes = ''Subject: re: hello'' \<rparr>"










definition swept :: "relay \<Rightarrow> item \<Rightarrow> world \<Rightarrow> world" where
  "swept relay x v = snd (snd (run (sweep_one x) lambda_grants relay cleanUpLambda v))"





section \<open>Facts about the platform model\<close>

lemma stack_grants_eq: "stack_grants (DisposableEmailCdkStack c) = lambda_grants"
  by (simp add: DisposableEmailCdkStack_def Let_def)

lemma cached_zero: "resultsCacheTtl a = 0 \<Longrightarrow> cached a cache now tok = False"
  by (simp add: cached_def list_ex_iff)

lemma run_trace_calls: "list_all (called_by f) (fst (snd (run p gs relay f w)))"
proof (induction p arbitrary: w)
  case (Return x)
  show ?case by simp
next
  case (Call rq k)
  obtain resp w1 where c: "call gs relay f rq w = (resp, w1)"
    by (cases "call gs relay f rq w")
  with Call.IH [OF rangeI, of resp w1] show ?case
    by (auto split: prod.splits)
qed

lemma filter_call_unchanged:
  "snd (call lambda_grants relay incomingMailCheckLambda rq w) = w"
  by (cases rq)
    (simp_all add: call_def allowed_def lambda_grants_def statement_allows_def
       READ_DATA_ACTIONS_def action_matches_def resource_matches_def)

lemma filter_run_unchanged:
  "snd (snd (run p lambda_grants relay incomingMailCheckLambda w)) = w"
proof (induction p arbitrary: w)
  case (Return x)
  show ?case by simp
next
  case (Call rq k)
  obtain resp w1 where c: "call lambda_grants relay incomingMailCheckLambda rq w = (resp, w1)"
    by (cases "call lambda_grants relay incomingMailCheckLambda rq w")
  with filter_call_unchanged [of relay rq w] have "w1 = w" by simp
  with c Call.IH [OF rangeI, of resp w] show ?case
    by (auto split: prod.splits)
qed

text \<open>What the declared rule set does with a message, in full.\<close>

lemma receive_stack:
  "receive (DisposableEmailCdkStack c) relay H m w =
    (if to_email_domain c m then
       (case run (H incomingMailCheckLambda m) lambda_grants relay incomingMailCheckLambda w of
          (d, tr0, w0) \<Rightarrow>
            if d = CONTINUE then
              (case run (H storeEmailLambda m) lambda_grants relay storeEmailLambda
                      (w0\<lparr> objects := put_object (messageId m) (rawBytes m) (objects w0) \<rparr>) of
                 (d1, tr1, w1) \<Rightarrow>
                   (Invoked incomingMailCheckLambda REQUEST_RESPONSE # tr0 @
                      ObjectCreated (messageId m) # Published emailNotificationTopic #
                      Invoked storeEmailLambda EVENT # tr1, w1))
            else (Invoked incomingMailCheckLambda REQUEST_RESPONSE # tr0, w0))
     else ([], w))"
proof -
  obtain d tr0 w0 where
    r: "run (H incomingMailCheckLambda m) lambda_grants relay incomingMailCheckLambda w = (d, tr0, w0)"
    by (cases "run (H incomingMailCheckLambda m) lambda_grants relay incomingMailCheckLambda w")
  show ?thesis
    using r
    by (cases d)
      (simp_all add: receive_def DisposableEmailCdkStack_def rule_applies_def to_email_domain_def
        service_allowed_def lambda_event_sources_def Let_def split: prod.splits)
qed

declare StorageConstruct.simps [simp del]

lemma run_bind:
  "run (bind p g) gs relay f w =
     (case run p gs relay f w of
        (x, tr, w1) \<Rightarrow> (case run (g x) gs relay f w1 of (y, tr2, w2) \<Rightarrow> (y, tr @ tr2, w2)))"
proof (induction p arbitrary: w)
  case (Return x)
  show ?case by (simp split: prod.splits)
next
  case (Call rq k)
  obtain resp w1 where c: "call gs relay f rq w = (resp, w1)"
    by (cases "call gs relay f rq w")
  show ?case
    using c Call.IH [OF rangeI, of resp w1] by (simp split: prod.splits)
qed

lemma map_of_filter_fst:
  "map_of (filter (\<lambda>p. fst p \<noteq> a) it) b = (if b = a then None else map_of it b)"
  by (induction it) auto

lemma map_of_set_attr:
  "map_of (set_attr a v it) b = (if b = a then Some v else map_of it b)"
  by (simp add: set_attr_def map_of_filter_fst)

lemma key_value_set_attr:
  "a \<noteq> attr_name ka \<Longrightarrow> key_value ka (set_attr a v it) = key_value ka it"
  by (simp add: key_value_def map_of_set_attr)

lemma key_of_set_attr:
  "a \<notin> set (key_names tp) \<Longrightarrow> key_of tp (set_attr a v it) = key_of tp it"
  by (cases "sortKey tp")
    (auto simp add: key_of_def key_names_def key_value_set_attr split: option.splits)

lemma get_item_Some_key: "get_item tp k tbl = Some it \<Longrightarrow> key_of tp it = Some k \<and> it \<in> set tbl"
  by (auto simp add: get_item_def find_Some_iff)

lemma get_item_None_iff: "get_item tp k tbl = None \<longleftrightarrow> (\<forall>i \<in> set tbl. key_of tp i \<noteq> Some k)"
  by (auto simp add: get_item_def find_None_iff)

lemma get_item_append:
  "get_item tp k (xs @ ys) = (case get_item tp k xs of None \<Rightarrow> get_item tp k ys | Some i \<Rightarrow> Some i)"
  by (induction xs) (auto simp add: get_item_def)

lemma get_item_filter_other:
  "k \<noteq> k' \<Longrightarrow> get_item tp k (filter (\<lambda>i. key_of tp i \<noteq> Some k') tbl) = get_item tp k tbl"
  by (induction tbl) (auto simp add: get_item_def)

lemma get_item_filter_same:
  "get_item tp k (filter (\<lambda>i. key_of tp i \<noteq> Some k) tbl) = None"
  by (simp add: get_item_None_iff)

lemma get_item_put_item:
  "key_of tp it = Some k' \<Longrightarrow>
     get_item tp k (put_item tp it tbl) = (if k = k' then Some it else get_item tp k tbl)"
  by (auto simp add: put_item_def get_item_append get_item_filter_same get_item_filter_other
        split: option.splits)
    (simp_all add: get_item_def)

lemma get_item_delete_item:
  "get_item tp k (delete_item tp k' tbl) = (if k = k' then None else get_item tp k tbl)"
  by (simp add: delete_item_def get_item_filter_same get_item_filter_other)

lemma put_item_fresh:
  "get_item tp k tbl = None \<Longrightarrow> key_of tp it = Some k \<Longrightarrow> put_item tp it tbl = tbl @ [it]"
  by (simp add: put_item_def get_item_None_iff)

lemma keys_unique_put:
  assumes "key_of tp it \<noteq> None" and "keys_unique tp tbl"
  shows "keys_unique tp (put_item tp it tbl)"
  using assms
  by (auto simp add: keys_unique_def put_item_def distinct_map_filter)

lemma keys_unique_delete: "keys_unique tp tbl \<Longrightarrow> keys_unique tp (delete_item tp k tbl)"
  by (auto simp add: keys_unique_def delete_item_def distinct_map_filter)

lemma world_ok_table: "world_ok w \<Longrightarrow> keys_unique (StorageConstruct t) (table_of t w)"
  by (cases t) (simp_all add: world_ok_def)

lemma world_ok_set_table:
  "world_ok w \<Longrightarrow> keys_unique (StorageConstruct t) tbl \<Longrightarrow> world_ok (set_table t tbl w)"
  by (cases t) (simp_all add: world_ok_def)

lemma world_ok_objects: "world_ok (w\<lparr> objects := os \<rparr>) = world_ok w"
  by (simp add: world_ok_def)

lemma perform_ok: "world_ok w \<Longrightarrow> world_ok (snd (perform relay rq w))"
proof (cases rq)
  case (PutItem t it c)
  assume ok: "world_ok w"
  show ?thesis
    using PutItem ok world_ok_table [OF ok, of t]
    by (auto simp add: world_ok_set_table keys_unique_put split: option.splits)
next
  case (UpdateItem t k a v)
  assume ok: "world_ok w"
  show ?thesis
  proof (cases "a \<in> set (key_names (StorageConstruct t))
          \<or> key_of (StorageConstruct t) (key_item (StorageConstruct t) k) \<noteq> Some k")
    case True
    with UpdateItem ok show ?thesis by auto
  next
    case False
    then have k: "key_of (StorageConstruct t)
        (set_attr a v (case get_item (StorageConstruct t) k (table_of t w) of
                         None \<Rightarrow> key_item (StorageConstruct t) k | Some it \<Rightarrow> it)) = Some k"
      by (auto simp add: key_of_set_attr dest: get_item_Some_key split: option.splits)
    show ?thesis
      using UpdateItem ok False k world_ok_table [OF ok, of t]
      by (simp add: world_ok_set_table keys_unique_put)
  qed
next
  case (DeleteItem t k)
  assume ok: "world_ok w"
  show ?thesis
    using DeleteItem ok world_ok_table [OF ok, of t]
    by (simp add: world_ok_set_table keys_unique_delete)
qed (simp_all add: world_ok_objects)

lemma call_ok: "world_ok w \<Longrightarrow> world_ok (snd (call gs relay f rq w))"
  by (simp add: call_def perform_ok)

lemma run_ok: "world_ok w \<Longrightarrow> world_ok (snd (snd (run p gs relay f w)))"
proof (induction p arbitrary: w)
  case (Return x)
  then show ?case by simp
next
  case (Call rq k)
  obtain resp w1 where c: "call gs relay f rq w = (resp, w1)"
    by (cases "call gs relay f rq w")
  with call_ok [OF Call.prems, of gs relay f rq] have "world_ok w1" by simp
  with c Call.IH [OF rangeI, of w1 resp] show ?case
    by (auto split: prod.splits)
qed

lemma notify_ok: "world_ok w \<Longrightarrow> world_ok (snd (notify gs relay H m t es w))"
proof (induction es arbitrary: w)
  case Nil
  then show ?case by simp
next
  case (Cons e es)
  obtain f t' where e: "e = (f, t')" by (cases e)
  show ?case
  proof (cases "t' = t")
    case True
    obtain d tr w1 where r: "run (H f m) gs relay f w = (d, tr, w1)"
      by (cases "run (H f m) gs relay f w")
    with run_ok [OF Cons.prems, of "H f m" gs relay f] have "world_ok w1" by simp
    with Cons.IH [of w1] e True r show ?thesis
      by (auto split: prod.splits)
  next
    case False
    with Cons e show ?thesis by simp
  qed
qed


lemma run_actions_ok: "world_ok w \<Longrightarrow> world_ok (snd (snd (run_actions st relay H m as w)))"
proof (induction as arbitrary: w)
  case Nil
  then show ?case by simp
next
  case (Cons a as)
  show ?case
  proof (cases a)
    case (Actions_Lambda f it)
    obtain d tr w1 where r: "run (H f m) (stack_grants st) relay f w = (d, tr, w1)"
      by (cases "run (H f m) (stack_grants st) relay f w")
    with run_ok [OF Cons.prems, of "H f m" "stack_grants st" relay f] have "world_ok w1" by simp
    with Cons.IH [of w1] Actions_Lambda r show ?thesis
      by (auto split: prod.splits)
  next
    case (Actions_S3 tp)
    let ?w1 = "w\<lparr> objects := put_object (messageId m) (rawBytes m) (objects w) \<rparr>"
    have ok1: "world_ok ?w1"
      using Cons.prems by (simp add: world_ok_objects)
    show ?thesis
    proof (cases tp)
      case None
      with Actions_S3 Cons.prems Cons.IH [OF ok1] show ?thesis
        by (auto simp add: Let_def split: prod.splits)
    next
      case (Some t)
      obtain tr1 w2 where n: "notify (stack_grants st) relay H m t (eventSources st) ?w1 = (tr1, w2)"
        by (cases "notify (stack_grants st) relay H m t (eventSources st) ?w1")
      with notify_ok [OF ok1, of "stack_grants st" relay H m t "eventSources st"]
      have "world_ok w2" by simp
      with Cons.IH [of w2] Actions_S3 Some n Cons.prems ok1 show ?thesis
        by (auto simp add: Let_def split: prod.splits)
    qed
  qed
qed

lemma run_rules_ok: "world_ok w \<Longrightarrow> world_ok (snd (run_rules st relay H m rs w))"
proof (induction rs arbitrary: w)
  case Nil
  then show ?case by simp
next
  case (Cons r rs)
  obtain out tr w1 where a: "run_actions st relay H m (rule_actions r) w = (out, tr, w1)"
    by (cases "run_actions st relay H m (rule_actions r) w")
  with run_actions_ok [OF Cons.prems, of st relay H m "rule_actions r"] have "world_ok w1" by simp
  with Cons.IH [of w1] Cons.IH [OF Cons.prems] Cons.prems a show ?case
    by (auto split: prod.splits)
qed

lemma reachable_ok: "reachable st w \<Longrightarrow> world_ok w"
proof (induction rule: reachable.induct)
  case initial
  show ?case by (simp add: world_ok_def keys_unique_def empty_world_def)
next
  case (mail w relay H m tr w')
  with run_rules_ok [of w st relay H m "ruleSet st"] show ?case
    by (simp add: receive_def)
next
  case (code w p relay f x tr w')
  with run_ok [of w p "stack_grants st" relay f] show ?case by simp
qed

lemma emails_key_pair:
  "key_of (StorageConstruct disposableEmailsTable) it = Some k \<Longrightarrow>
     (map_of it ''destination'', map_of it ''messageId'') = (Some (fst k), snd k)"
  by (auto simp add: StorageConstruct.simps key_of_def key_value_def split: option.splits if_splits)

lemma addresses_key_attr:
  "key_of (StorageConstruct disposableAddressesTable) it = Some k \<Longrightarrow>
     map_of it ''address'' = Some (fst k) \<and> snd k = None"
  by (auto simp add: StorageConstruct.simps key_of_def key_value_def split: option.splits if_splits)

lemma keys_unique_emails_rows:
  assumes "keys_unique (StorageConstruct disposableEmailsTable) tbl"
  shows "distinct (map (\<lambda>it. (map_of it ''destination'', map_of it ''messageId'')) tbl)"
proof -
  let ?tp = "StorageConstruct disposableEmailsTable"
  have d: "distinct tbl" and i: "inj_on (key_of ?tp) (set tbl)"
    using assms by (simp_all add: keys_unique_def distinct_map)
  have v: "\<exists>k. key_of ?tp x = Some k" if "x \<in> set tbl" for x
    using assms that by (cases "key_of ?tp x") (auto simp add: keys_unique_def image_iff)
  have "inj_on (\<lambda>it. (map_of it ''destination'', map_of it ''messageId'')) (set tbl)"
  proof (rule inj_onI)
    fix x y
    assume x: "x \<in> set tbl" and y: "y \<in> set tbl"
      and e: "(map_of x ''destination'', map_of x ''messageId'')
            = (map_of y ''destination'', map_of y ''messageId'')"
    obtain kx ky where kx: "key_of ?tp x = Some kx" and ky: "key_of ?tp y = Some ky"
      using v [OF x] v [OF y] by auto
    from emails_key_pair [OF kx] emails_key_pair [OF ky] e have "kx = ky"
      by (simp add: prod_eq_iff)
    with kx ky have "key_of ?tp x = key_of ?tp y" by simp
    with i x y show "x = y" by (simp add: inj_on_def)
  qed
  with d show ?thesis by (simp add: distinct_map)
qed

lemma keys_unique_addresses_rows:
  assumes "keys_unique (StorageConstruct disposableAddressesTable) tbl"
  shows "distinct (map (\<lambda>it. map_of it ''address'') tbl)"
proof -
  let ?tp = "StorageConstruct disposableAddressesTable"
  have d: "distinct tbl" and i: "inj_on (key_of ?tp) (set tbl)"
    using assms by (simp_all add: keys_unique_def distinct_map)
  have v: "\<exists>k. key_of ?tp x = Some k" if "x \<in> set tbl" for x
    using assms that by (cases "key_of ?tp x") (auto simp add: keys_unique_def image_iff)
  have "inj_on (\<lambda>it. map_of it ''address'') (set tbl)"
  proof (rule inj_onI)
    fix x y
    assume x: "x \<in> set tbl" and y: "y \<in> set tbl"
      and e: "map_of x ''address'' = map_of y ''address''"
    obtain kx ky where kx: "key_of ?tp x = Some kx" and ky: "key_of ?tp y = Some ky"
      using v [OF x] v [OF y] by auto
    from addresses_key_attr [OF kx] addresses_key_attr [OF ky] e have "kx = ky"
      by (simp add: prod_eq_iff)
    with kx ky have "key_of ?tp x = key_of ?tp y" by simp
    with i x y show "x = y" by (simp add: inj_on_def)
  qed
  with d show ?thesis by (simp add: distinct_map)
qed

lemma call_allowed:
  "allowed gs f (fst (required_action rq)) (snd (required_action rq)) \<Longrightarrow>
     call gs relay f rq w = perform relay rq w"
  by (simp add: call_def)

lemma store_may_put_email:
  "allowed lambda_grants storeEmailLambda ''dynamodb:PutItem'' (Table disposableEmailsTable)"
  by (simp add: allowed_def lambda_grants_def statement_allows_def READ_DATA_ACTIONS_def
        WRITE_DATA_ACTIONS_def action_matches_def resource_matches_def)

lemma key_of_stored_email:
  "key_of (StorageConstruct disposableEmailsTable) (stored_email dst mid sndr subj rcvd)
     = Some (S dst, Some (S mid))"
  by (simp add: StorageConstruct.simps key_of_def key_value_def stored_email_def)

lemma key_of_new_address:
  "key_of (StorageConstruct disposableAddressesTable) (new_address a owner now ttl) = Some (S a, None)"
  by (simp add: StorageConstruct.simps key_of_def key_value_def new_address_def)

lemma allowed_eval:
  "allowed lambda_grants createEmailLambda ''dynamodb:PutItem'' (Table disposableAddressesTable)"
  "allowed lambda_grants storeEmailLambda ''s3:PutObject'' EmailBucket"
  by (simp_all add: allowed_def lambda_grants_def statement_allows_def READ_DATA_ACTIONS_def
        WRITE_DATA_ACTIONS_def BUCKET_DELETE_ACTIONS_def BUCKET_READ_ACTIONS_def BUCKET_PUT_ACTIONS_def
        action_matches_def resource_matches_def)

lemma example_world_reachable: "reachable (DisposableEmailCdkStack c) example_world"
proof -
  let ?st = "DisposableEmailCdkStack c"
  let ?w1 = "empty_world\<lparr> addresses := [new_address ''x7@mail.example.com'' ''owner-1'' 1000 86400] \<rparr>"
  let ?p1 = "Call (PutItem disposableAddressesTable
             (new_address ''x7@mail.example.com'' ''owner-1'' 1000 86400) True) (\<lambda>r. Return ())"
  let ?p2 = "bind (mailbox_put ''x7@mail.example.com'' ''m1'' ''alice@elsewhere.org'' ''hello'' 2000
                ''Subject: hello'') (\<lambda>res. Return ())"
  have "snd (snd (run ?p1 (stack_grants ?st) (\<lambda>x. False) createEmailLambda empty_world)) = ?w1"
    by (simp add: stack_grants_eq call_def allowed_eval key_of_new_address
        empty_world_def get_item_def put_item_def)
  then have r1: "reachable ?st ?w1"
    using reachable.code [OF reachable.initial, of ?p1 ?st "\<lambda>x. False" createEmailLambda]
    by (metis prod.collapse)
  have "snd (snd (run ?p2 (stack_grants ?st) (\<lambda>x. False) storeEmailLambda ?w1)) = example_world"
    by (simp add: stack_grants_eq run_bind mailbox_put_def call_def allowed_eval store_may_put_email
        key_of_stored_email empty_world_def example_world_def get_item_def put_item_def
        put_object_def content_key_def)
  then show ?thesis
    using reachable.code [OF r1, of ?p2 "\<lambda>x. False" storeEmailLambda]
    by (metis prod.collapse)
qed

lemma expiresAt_set_attr_other: "a \<noteq> ''expiresAt'' \<Longrightarrow> expiresAt (set_attr a v it) = expiresAt it"
  by (simp add: expiresAt_def map_of_set_attr)

lemma expiresAt_set_attr_same: "expiresAt (set_attr ''expiresAt'' (N n) it) = Some n"
  by (simp add: expiresAt_def map_of_set_attr)

lemma addresses_key_names: "key_names (StorageConstruct disposableAddressesTable) = [''address'']"
  by (simp add: key_names_def StorageConstruct.simps)

lemma run_bind_world:
  "snd (snd (run (bind p (\<lambda>res. Return y)) gs relay f w)) = snd (snd (run p gs relay f w))"
  by (simp add: run_bind split: prod.splits)

lemma registry_get_world: "snd (snd (run (registry_get a') gs relay f w)) = w"
  by (simp add: registry_get_def call_def split: option.splits)

lemma listExpired_world: "snd (snd (run (listExpired asOf) gs relay f w)) = w"
  by (simp add: listExpired_def call_def)

lemma registry_delete_expiry:
  "a' \<noteq> a \<Longrightarrow> expiry_of (snd (snd (run (registry_delete a') gs relay f w))) a = expiry_of w a"
  by (simp add: registry_delete_def call_def expiry_of_def get_item_delete_item)

lemma create_fresh_expiry:
  "expiry_of w a = Some e \<Longrightarrow>
     expiry_of (snd (snd (run (create_fresh dmn ttl now owner draws) gs relay f w))) a = Some e"
proof (induction draws arbitrary: w)
  case Nil
  then show ?case by simp
next
  case (Cons d ds)
  let ?tp = "StorageConstruct disposableAddressesTable"
  let ?it = "new_address (d @ ''@'' @ dmn) owner now ttl"
  show ?case
  proof (cases "allowed gs f ''dynamodb:PutItem'' (Table disposableAddressesTable)")
    case False
    with Cons.prems show ?thesis by (simp add: call_def)
  next
    case True
    show ?thesis
    proof (cases "get_item ?tp (S (d @ ''@'' @ dmn), None) (addresses w)")
      case (Some x)
      with True Cons.IH [OF Cons.prems] show ?thesis
        by (auto simp add: call_def key_of_new_address split: prod.splits)
    next
      case None
      with Cons.prems have ne: "(S a, None) \<noteq> (S (d @ ''@'' @ dmn), None)"
        by (auto simp add: expiry_of_def)
      have "expiry_of (w\<lparr> addresses := put_item ?tp ?it (addresses w) \<rparr>) a = Some e"
        using Cons.prems ne
        by (simp add: expiry_of_def get_item_put_item [OF key_of_new_address])
      with True None show ?thesis
        by (simp add: call_def key_of_new_address)
    qed
  qed
qed

lemma create_expiry:
  "expiry_of w a = Some e \<Longrightarrow>
     expiry_of (snd (snd (run (create st now draws owner dc) gs relay f w))) a = Some e"
  by (simp add: create_def create_fresh_expiry split: option.splits)

lemma updateSettings_expiry:
  assumes "expiry_of w a = Some e"
  shows "\<exists>e'. expiry_of (snd (snd (run (updateSettings a' ext del) gs relay f w))) a = Some e' \<and> e \<le> e'"
proof (cases "allowed gs f ''dynamodb:GetItem'' (Table disposableAddressesTable)")
  case False
  with assms show ?thesis by (simp add: updateSettings_def call_def)
next
  case g: True
  let ?tp = "StorageConstruct disposableAddressesTable"
  show ?thesis
  proof (cases "get_item ?tp (S a', None) (addresses w)")
    case None
    with g assms show ?thesis by (simp add: updateSettings_def call_def)
  next
    case (Some it)
    then have kit: "key_of ?tp it = Some (S a', None)"
      by (simp add: get_item_Some_key)
    show ?thesis
    proof (cases "expiresAt it")
      case None
      with g Some assms show ?thesis by (simp add: updateSettings_def call_def)
    next
      case e0: (Some e0)
      define it2 where "it2 = apply_settings ext del e0 it"
      have k2: "key_of ?tp it2 = Some (S a', None)"
        using kit
        by (simp add: it2_def apply_settings_def Let_def key_of_set_attr addresses_key_names
              split: option.splits)
      have x2: "\<exists>e'. expiresAt it2 = Some e' \<and> e0 \<le> e'"
        using e0
        by (auto simp add: it2_def apply_settings_def Let_def expiresAt_set_attr_other
              expiresAt_set_attr_same split: option.splits)
      show ?thesis
      proof (cases "allowed gs f ''dynamodb:PutItem'' (Table disposableAddressesTable)")
        case False
        with g Some e0 assms show ?thesis
          by (simp add: updateSettings_def call_def)
      next
        case True
        have w': "snd (snd (run (updateSettings a' ext del) gs relay f w))
                  = w\<lparr> addresses := put_item ?tp it2 (addresses w) \<rparr>"
          using g True Some e0 k2
          by (simp add: updateSettings_def call_def it2_def)
        show ?thesis
        proof (cases "a = a'")
          case True
          with Some e0 assms have "e0 = e" by (simp add: expiry_of_def)
          with True x2 show ?thesis
            by (simp add: w' expiry_of_def get_item_put_item [OF k2])
        next
          case False
          with assms show ?thesis
            by (simp add: w' expiry_of_def get_item_put_item [OF k2])
        qed
      qed
    qed
  qed
qed

lemma registry_step_expiry:
  assumes "op \<noteq> Delete a" and "expiry_of w a = Some e"
  shows "\<exists>e'. expiry_of (snd (snd (run (registry_call st op) gs relay f w))) a = Some e' \<and> e \<le> e'"
proof (cases op)
  case (Create now draws owner dc)
  with assms(2) show ?thesis by (simp add: run_bind_world create_expiry)
next
  case (Get a')
  with assms(2) show ?thesis by (simp add: run_bind_world registry_get_world)
next
  case (UpdateSettings a' ext del)
  with updateSettings_expiry [OF assms(2)] show ?thesis by (simp add: run_bind_world)
next
  case (ListExpired asOf)
  with assms(2) show ?thesis by (simp add: run_bind_world listExpired_world)
next
  case (Delete a')
  with assms show ?thesis by (simp add: run_bind_world registry_delete_expiry)
qed

lemma apply_ops_expiry:
  "list_all (\<lambda>p. snd p \<noteq> Delete a) ops \<Longrightarrow> expiry_of w a = Some e \<Longrightarrow>
     \<exists>e'. expiry_of (apply_ops st relay ops w) a = Some e' \<and> e \<le> e'"
proof (induction ops arbitrary: w e)
  case Nil
  then show ?case by simp
next
  case (Cons x ops)
  obtain f op where x: "x = (f, op)" by (cases x)
  with Cons.prems have op: "op \<noteq> Delete a" and rest: "list_all (\<lambda>p. snd p \<noteq> Delete a) ops"
    by simp_all
  from registry_step_expiry [OF op Cons.prems(2), of st "stack_grants st" relay f]
  obtain e1 where e1: "expiry_of (snd (snd (run (registry_call st op) (stack_grants st) relay f w))) a = Some e1"
    and le1: "e \<le> e1" by blast
  from Cons.IH [OF rest e1] obtain e' where
    "expiry_of (apply_ops st relay ops (snd (snd (run (registry_call st op) (stack_grants st) relay f w)))) a = Some e'"
    and "e1 \<le> e'" by blast
  with le1 x show ?case by auto
qed

lemma digit_value_digit_char: "d < 10 \<Longrightarrow> digit_value (digit_char d) = Some d"
  by (simp add: digit_value_def digit_char_def Let_def)

lemma parse_digits_append:
  "parse_digits acc (xs @ ys) =
     (case parse_digits acc xs of None \<Rightarrow> None | Some a \<Rightarrow> parse_digits a ys)"
  by (induction xs arbitrary: acc) (auto split: option.splits)

lemma parse_digits_toString: "parse_digits 0 (toString n) = Some n"
proof (induction n rule: toString.induct)
  case (1 n)
  show ?case
  proof (cases "n < 10")
    case True
    then show ?thesis
      by (subst toString.simps) (simp add: digit_value_digit_char)
  next
    case False
    have "n mod 10 < 10" by simp
    with False "1.IH" show ?thesis
      by (subst toString.simps) (simp add: parse_digits_append digit_value_digit_char)
  qed
qed

lemma toString_not_empty: "toString n \<noteq> []"
  by (subst toString.simps) simp

lemma parse_value_toString: "parse_value (toString n) = Some n"
  by (simp add: parse_value_def toString_not_empty parse_digits_toString)

lemma create_env:
  "env (DisposableEmailCdkStack c) createEmailLambda ''valid_domains'' = Some (EMAIL_DOMAIN_NAME c)"
  "env (DisposableEmailCdkStack c) createEmailLambda ''mailbox_ttl'' = Some (toString (MAILBOX_TTL c))"
  by (simp_all add: env_def DisposableEmailCdkStack_def Let_def)

lemma create_allowed:
  "allowed lambda_grants createEmailLambda ''dynamodb:Scan'' (Table disposableAddressesTable)"
  by (simp_all add: allowed_def lambda_grants_def statement_allows_def READ_DATA_ACTIONS_def
        WRITE_DATA_ACTIONS_def action_matches_def resource_matches_def)

lemma create_fresh_run:
  assumes "find (\<lambda>d. get_item (StorageConstruct disposableAddressesTable)
                       (S (d @ ''@'' @ dmn), None) (addresses w) = None) draws = Some d"
  shows "\<exists>tr. run (create_fresh dmn ttl now owner draws) lambda_grants relay createEmailLambda w =
      (Inr (new_address (d @ ''@'' @ dmn) owner now ttl,
            filter (\<lambda>it. map_of it ''ownerToken'' = Some (S owner))
              (addresses w @ [new_address (d @ ''@'' @ dmn) owner now ttl])),
       tr,
       w\<lparr> addresses := addresses w @ [new_address (d @ ''@'' @ dmn) owner now ttl] \<rparr>)"
  using assms
proof (induction draws)
  case Nil
  then show ?case by simp
next
  case (Cons x xs)
  let ?tp = "StorageConstruct disposableAddressesTable"
  show ?case
  proof (cases "get_item ?tp (S (x @ ''@'' @ dmn), None) (addresses w)")
    case None
    with Cons.prems have "x = d" by simp
    with None show ?thesis
      by (simp add: call_def allowed_eval create_allowed key_of_new_address
            put_item_fresh [OF _ key_of_new_address])
  next
    case (Some it)
    with Cons.prems have "find (\<lambda>d. get_item ?tp (S (d @ ''@'' @ dmn), None) (addresses w) = None) xs = Some d"
      by simp
    from Cons.IH [OF this] Some show ?thesis
      by (auto simp add: call_def allowed_eval key_of_new_address split: prod.splits)
  qed
qed

lemma deposit_precedes_stored: "deposit_precedes_pipeline mid True es"
proof (induction es)
  case Nil
  show ?case by simp
next
  case (Cons e es)
  then show ?case by (cases e) simp_all
qed

lemma deposit_precedes_other:
  "list_all (called_by f) tr \<Longrightarrow> f \<noteq> storeEmailLambda \<Longrightarrow>
     deposit_precedes_pipeline mid b (tr @ rest) = deposit_precedes_pipeline mid b rest"
proof (induction tr)
  case Nil
  show ?case by simp
next
  case (Cons e tr)
  then show ?case by (cases e) simp_all
qed

lemma map_of_put_object:
  "map_of (put_object k v os) k' = (if k' = k then Some v else map_of os k')"
  by (auto simp add: put_object_def map_add_def map_of_filter_fst split: option.splits)

lemma call_keeps_object:
  assumes "map_of (objects w) k = Some v"
    and "case rq of DeleteObject k' \<Rightarrow> k' \<noteq> k | PutObject k' v' \<Rightarrow> v' = v | _ \<Rightarrow> True"
  shows "map_of (objects (snd (call gs relay f rq w))) k = Some v"
proof (cases rq)
  case (PutItem t it c)
  with assms show ?thesis
    by (cases t) (auto simp add: call_def split: option.splits)
next
  case (UpdateItem t key a x)
  with assms show ?thesis
    by (cases t) (auto simp add: call_def)
next
  case (DeleteItem t key)
  with assms show ?thesis
    by (cases t) (auto simp add: call_def)
next
  case (DeleteObject k')
  with assms show ?thesis
    by (auto simp add: call_def delete_object_def map_of_filter_fst)
next
  case (PutObject k' v')
  with assms show ?thesis
    by (auto simp add: call_def map_of_put_object)
qed (use assms in \<open>auto simp add: call_def\<close>)

lemma calls_only_bind:
  "calls_only P p \<Longrightarrow> (\<And>x. calls_only P (g x)) \<Longrightarrow> calls_only P (bind p g)"
  by (induction p) auto

lemma calls_only_for_each:
  "(\<And>x. calls_only P (body x)) \<Longrightarrow> calls_only P (for_each xs body)"
  by (induction xs) (auto intro: calls_only_bind)

lemma run_keeps_object:
  assumes "calls_only (\<lambda>rq. case rq of DeleteObject k' \<Rightarrow> k' \<noteq> k | PutObject k' v' \<Rightarrow> v' = v | _ \<Rightarrow> True) p"
    and "map_of (objects w) k = Some v"
  shows "map_of (objects (snd (snd (run p gs relay f w)))) k = Some v"
  using assms
proof (induction p arbitrary: w)
  case (Return x)
  then show ?case by simp
next
  case (Call rq k')
  obtain resp w1 where c: "call gs relay f rq w = (resp, w1)"
    by (cases "call gs relay f rq w")
  from Call.prems have p: "case rq of DeleteObject k' \<Rightarrow> k' \<noteq> k | PutObject k' v' \<Rightarrow> v' = v | _ \<Rightarrow> True"
    and rest: "calls_only (\<lambda>rq. case rq of DeleteObject k' \<Rightarrow> k' \<noteq> k | PutObject k' v' \<Rightarrow> v' = v | _ \<Rightarrow> True) (k' resp)"
    by simp_all
  from call_keeps_object [OF Call.prems(2) p, of gs relay f] c
  have "map_of (objects w1) k = Some v" by simp
  from Call.IH [OF rangeI rest this] c show ?case
    by (auto split: prod.splits)
qed

lemma pipeline_calls:
  "calls_only (\<lambda>rq. case rq of DeleteObject k' \<Rightarrow> k' \<noteq> k | PutObject k' v' \<Rightarrow> v' = rawBytes m | _ \<Rightarrow> True)
     (storeEmail_pipeline now subject_of m)"
  unfolding storeEmail_pipeline_def
  apply (rule calls_only_bind)
   apply (rule calls_only_for_each)
   apply (auto simp add: store_recipient_def mailbox_put_def intro!: calls_only_bind
          split: response.splits option.splits attribute_value.splits)
  done


lemma store_allowed:
  "allowed lambda_grants storeEmailLambda ''dynamodb:GetItem'' (Table disposableAddressesTable)"
  "allowed lambda_grants storeEmailLambda ''dynamodb:GetItem'' (Table disposableReplyAddressesTable)"
  "allowed lambda_grants storeEmailLambda ''ses:SendRawEmail'' SesIdentity"
  by (simp_all add: allowed_def lambda_grants_def statement_allows_def READ_DATA_ACTIONS_def
        WRITE_DATA_ACTIONS_def BUCKET_DELETE_ACTIONS_def BUCKET_READ_ACTIONS_def BUCKET_PUT_ACTIONS_def
        action_matches_def resource_matches_def)

lemma example_reply_forwarded:
  "Called storeEmailLambda
       (SendRawEmail ''x7@mail.example.com'' ''bob@elsewhere.org'' ''Subject: re: hello'')
       (SendResult False)
     \<in> set (fst (receive (DisposableEmailCdkStack example_constants) (\<lambda>x. False)
         ((\<lambda>f m. Return CONTINUE)(storeEmailLambda := storeEmail_pipeline 5000 (\<lambda>raw. ''re: hello'')))
         example_reply example_proxy_world))"
  by (simp add: receive_stack to_email_domain_def example_constants_def example_reply_def
      example_proxy_world_def example_world_def recipient_matches_def domain_part_def
      storeEmail_pipeline_def store_recipient_def run_bind call_def store_allowed
      get_item_def key_of_new_address)
     (simp add: StorageConstruct.simps key_of_def key_value_def)


lemma cleanup_allowed:
  "allowed lambda_grants cleanUpLambda ''dynamodb:Query'' (Table disposableEmailsTable)"
  "allowed lambda_grants cleanUpLambda ''dynamodb:DeleteItem'' (Table disposableEmailsTable)"
  "allowed lambda_grants cleanUpLambda ''s3:DeleteObject'' EmailBucket"
  "allowed lambda_grants cleanUpLambda ''dynamodb:Scan'' (Table disposableReplyAddressesTable)"
  "allowed lambda_grants cleanUpLambda ''dynamodb:DeleteItem'' (Table disposableReplyAddressesTable)"
  "allowed lambda_grants cleanUpLambda ''dynamodb:DeleteItem'' (Table disposableAddressesTable)"
  by (simp_all add: allowed_def lambda_grants_def statement_allows_def READ_DATA_ACTIONS_def
        WRITE_DATA_ACTIONS_def BUCKET_DELETE_ACTIONS_def BUCKET_READ_ACTIONS_def BUCKET_PUT_ACTIONS_def
        action_matches_def resource_matches_def)



lemma deleteAll_result: "fst (run (deleteAll a) lambda_grants relay cleanUpLambda w) = Inr ()"
  by (simp add: deleteAll_def call_def cleanup_allowed run_bind split: prod.splits)


lemma deleteByParent_result: "fst (run (deleteByParent a) lambda_grants relay cleanUpLambda w) = Inr ()"
  by (simp add: deleteByParent_def call_def cleanup_allowed run_bind split: prod.splits)


lemma registry_delete_run:
  "run (registry_delete a) lambda_grants relay cleanUpLambda w =
     (Inr (), [Called cleanUpLambda (DeleteItem disposableAddressesTable (S a, None)) Succeeded],
      w\<lparr> addresses := delete_item (StorageConstruct disposableAddressesTable) (S a, None) (addresses w) \<rparr>)"
  by (simp add: registry_delete_def call_def cleanup_allowed)














lemma in_sequence_step:
  "fst (run p gs relay f w) = Inr () \<Longrightarrow>
     snd (snd (run (in_sequence (p # ps)) gs relay f w)) =
       snd (snd (run (in_sequence ps) gs relay f (snd (snd (run p gs relay f w)))))"
  by (auto simp add: run_bind split: prod.splits)

lemma cascade_world:
  "snd (snd (run (in_sequence (cascade_steps a)) lambda_grants relay cleanUpLambda w)) =
     snd (snd (run (registry_delete a) lambda_grants relay cleanUpLambda
       (snd (snd (run (deleteByParent a) lambda_grants relay cleanUpLambda
          (snd (snd (run (deleteAll a) lambda_grants relay cleanUpLambda w))))))))"
  by (simp add: cascade_steps_def in_sequence_step deleteAll_result deleteByParent_result
        registry_delete_run del: in_sequence.simps(2))









lemma swept_other:
  "(\<And>a. map_of x ''address'' \<noteq> Some (S a)) \<Longrightarrow> swept relay x v = v"
  by (simp add: swept_def sweep_one_def split: option.splits attribute_value.splits)



















































section \<open>Mail intake\<close>

text \<open>
  C1. For every inbound message to the email domain, whatever code the functions run:
  the first thing that happens is the synchronous (request-response) invocation of the
  Mail Intake Filter, and the filter leaves the stored state as it was. When the filter
  lets the message continue, the raw content is then deposited in the bucket under the
  message identifier, the topic is notified, and the Mail Storage Pipeline is invoked,
  in this order and after all calls of the filter. When the filter rejects the message
  (any disposition other than \<open>CONTINUE\<close>), nothing follows the filter's own calls: no
  deposit, no notification, no invocation of the pipeline, and the state is unchanged.
\<close>

theorem intake_filter_runs_first:
  assumes "to_email_domain c m"
    and "run (H incomingMailCheckLambda m) (stack_grants (DisposableEmailCdkStack c)) relay
           incomingMailCheckLambda w = (d, tr0, w0)"
  shows "w0 = w \<and> list_all (called_by incomingMailCheckLambda) tr0 \<and>
    (if d = CONTINUE then
       (\<exists>d1 tr1 w1.
          run (H storeEmailLambda m) (stack_grants (DisposableEmailCdkStack c)) relay storeEmailLambda
            (w\<lparr> objects := put_object (messageId m) (rawBytes m) (objects w) \<rparr>) = (d1, tr1, w1)
          \<and> list_all (called_by storeEmailLambda) tr1
          \<and> receive (DisposableEmailCdkStack c) relay H m w =
              (Invoked incomingMailCheckLambda REQUEST_RESPONSE # tr0 @
                 ObjectCreated (messageId m) # Published emailNotificationTopic #
                 Invoked storeEmailLambda EVENT # tr1, w1))
     else receive (DisposableEmailCdkStack c) relay H m w =
            (Invoked incomingMailCheckLambda REQUEST_RESPONSE # tr0, w))"
proof -
  have r: "run (H incomingMailCheckLambda m) lambda_grants relay incomingMailCheckLambda w = (d, tr0, w0)"
    using assms(2) by (simp add: stack_grants_eq)
  have w0: "w0 = w"
    using filter_run_unchanged [of "H incomingMailCheckLambda m" relay w] r by simp
  have t0: "list_all (called_by incomingMailCheckLambda) tr0"
    using run_trace_calls [of incomingMailCheckLambda "H incomingMailCheckLambda m" lambda_grants relay w] r
    by simp
  obtain d1 tr1 w1 where
    p: "run (H storeEmailLambda m) lambda_grants relay storeEmailLambda
          (w\<lparr> objects := put_object (messageId m) (rawBytes m) (objects w) \<rparr>) = (d1, tr1, w1)"
    by (cases "run (H storeEmailLambda m) lambda_grants relay storeEmailLambda
          (w\<lparr> objects := put_object (messageId m) (rawBytes m) (objects w) \<rparr>)")
  have t1: "list_all (called_by storeEmailLambda) tr1"
    using run_trace_calls [of storeEmailLambda "H storeEmailLambda m" lambda_grants relay
        "w\<lparr> objects := put_object (messageId m) (rawBytes m) (objects w) \<rparr>"] p
    by simp
  show ?thesis
    using assms(1) r w0 t0 p t1
    by (simp add: receive_stack stack_grants_eq)
qed

theorem intake_filter_runs_first_witness:
  "to_email_domain example_constants example_message
   \<and> run (Return STOP_RULE :: disposition prog) (stack_grants (DisposableEmailCdkStack example_constants))
        (\<lambda>x. False) incomingMailCheckLambda empty_world = (STOP_RULE, [], empty_world)
   \<and> receive (DisposableEmailCdkStack example_constants) (\<lambda>x. False)
        (\<lambda>f m. Return STOP_RULE) example_message empty_world =
      ([Invoked incomingMailCheckLambda REQUEST_RESPONSE], empty_world)"
proof -
  have a: "to_email_domain example_constants example_message"
    by (simp add: to_email_domain_def example_constants_def example_message_def constants_def
          recipient_matches_def domain_part_def)
  have b: "run ((\<lambda>f m. Return STOP_RULE) incomingMailCheckLambda example_message)
        (stack_grants (DisposableEmailCdkStack example_constants))
        (\<lambda>x. False) incomingMailCheckLambda empty_world = (STOP_RULE, [], empty_world)"
    by simp
  show ?thesis
    using a b intake_filter_runs_first [OF a b] by simp
qed

text \<open>
  C9. The Mail Intake Filter cannot change stored state: whatever program runs as the
  filter function, from whatever state, the three tables and the bucket are afterwards
  what they were before. The grants of its role are exactly read access to the
  addresses table and to the reply-addresses table.
\<close>

theorem intake_filter_changes_nothing:
  "snd (snd (run p (stack_grants (DisposableEmailCdkStack c)) relay incomingMailCheckLambda w)) = w
   \<and> filter (\<lambda>g. grantee (statement_of g) = incomingMailCheckLambda)
        (stack_grants (DisposableEmailCdkStack c)) =
       [grantReadData disposableAddressesTable incomingMailCheckLambda,
        grantReadData disposableReplyAddressesTable incomingMailCheckLambda]"
proof -
  have "filter (\<lambda>g. grantee (statement_of g) = incomingMailCheckLambda) lambda_grants =
       [grantReadData disposableAddressesTable incomingMailCheckLambda,
        grantReadData disposableReplyAddressesTable incomingMailCheckLambda]"
    by (simp add: lambda_grants_def)
  then show ?thesis
    by (simp add: stack_grants_eq filter_run_unchanged)
qed

text \<open>
  C2. For every message to the email domain that the filter accepts, whatever code the
  functions run: the raw content is deposited in the bucket, the Mail Storage Pipeline
  is invoked, and nothing of the pipeline, so no forwarding attempt either, comes before
  the deposit. And with the pipeline of the specification as the storing function's
  code, the bucket still holds the raw content under the message identifier when the
  pipeline is done, whatever the relay answers to a forwarding attempt: a failed
  forwarding does not lose the message.
\<close>

theorem deposit_before_forwarding:
  assumes "to_email_domain c m"
    and "fst (run (H incomingMailCheckLambda m) (stack_grants (DisposableEmailCdkStack c)) relay
                incomingMailCheckLambda w) = CONTINUE"
  shows "deposit_precedes_pipeline (messageId m) False
           (fst (receive (DisposableEmailCdkStack c) relay H m w))
    \<and> ObjectCreated (messageId m) \<in> set (fst (receive (DisposableEmailCdkStack c) relay H m w))
    \<and> Invoked storeEmailLambda EVENT \<in> set (fst (receive (DisposableEmailCdkStack c) relay H m w))
    \<and> map_of (objects (snd (receive (DisposableEmailCdkStack c) relay
                 (H(storeEmailLambda := storeEmail_pipeline now subject_of)) m w)))
          (messageId m) = Some (rawBytes m)"
proof -
  obtain d tr0 w0 where
    r: "run (H incomingMailCheckLambda m) lambda_grants relay incomingMailCheckLambda w = (d, tr0, w0)"
    by (cases "run (H incomingMailCheckLambda m) lambda_grants relay incomingMailCheckLambda w")
  with assms(2) have d: "d = CONTINUE" by (simp add: stack_grants_eq)
  have t0: "list_all (called_by incomingMailCheckLambda) tr0"
    using run_trace_calls [of incomingMailCheckLambda "H incomingMailCheckLambda m" lambda_grants relay w] r
    by simp
  let ?w1 = "w0\<lparr> objects := put_object (messageId m) (rawBytes m) (objects w0) \<rparr>"
  obtain d1 tr1 w1 where
    p: "run (H storeEmailLambda m) lambda_grants relay storeEmailLambda ?w1 = (d1, tr1, w1)"
    by (cases "run (H storeEmailLambda m) lambda_grants relay storeEmailLambda ?w1")
  have tr: "fst (receive (DisposableEmailCdkStack c) relay H m w) =
      Invoked incomingMailCheckLambda REQUEST_RESPONSE # tr0 @
        ObjectCreated (messageId m) # Published emailNotificationTopic #
        Invoked storeEmailLambda EVENT # tr1"
    using assms(1) r d p by (simp add: receive_stack)
  have a: "deposit_precedes_pipeline (messageId m) False
             (fst (receive (DisposableEmailCdkStack c) relay H m w))"
    using t0 by (simp add: tr deposit_precedes_other deposit_precedes_stored)
  have o: "map_of (objects ?w1) (messageId m) = Some (rawBytes m)"
    by (simp add: map_of_put_object)
  have "snd (receive (DisposableEmailCdkStack c) relay
                 (H(storeEmailLambda := storeEmail_pipeline now subject_of)) m w)
        = snd (snd (run (storeEmail_pipeline now subject_of m) lambda_grants relay storeEmailLambda ?w1))"
    using assms(1) r d by (simp add: receive_stack split: prod.splits)
  with run_keeps_object [OF pipeline_calls o, of now subject_of lambda_grants relay storeEmailLambda]
  have b: "map_of (objects (snd (receive (DisposableEmailCdkStack c) relay
                 (H(storeEmailLambda := storeEmail_pipeline now subject_of)) m w)))
          (messageId m) = Some (rawBytes m)"
    by simp
  show ?thesis
    using a b by (simp add: tr)
qed

theorem deposit_before_forwarding_witness:
  "to_email_domain example_constants example_reply
   \<and> fst (run (Return CONTINUE :: disposition prog)
             (stack_grants (DisposableEmailCdkStack example_constants)) (\<lambda>x. False)
             incomingMailCheckLambda example_proxy_world) = CONTINUE
   \<and> deposit_precedes_pipeline ''m2'' False
        (fst (receive (DisposableEmailCdkStack example_constants) (\<lambda>x. False)
           (\<lambda>f m. Return CONTINUE) example_reply example_proxy_world))
   \<and> Called storeEmailLambda
        (SendRawEmail ''x7@mail.example.com'' ''bob@elsewhere.org'' ''Subject: re: hello'')
        (SendResult False)
      \<in> set (fst (receive (DisposableEmailCdkStack example_constants) (\<lambda>x. False)
           ((\<lambda>f m. Return CONTINUE)(storeEmailLambda := storeEmail_pipeline 5000 (\<lambda>raw. ''re: hello'')))
           example_reply example_proxy_world))
   \<and> map_of (objects (snd (receive (DisposableEmailCdkStack example_constants) (\<lambda>x. False)
           ((\<lambda>f m. Return CONTINUE)(storeEmailLambda := storeEmail_pipeline 5000 (\<lambda>raw. ''re: hello'')))
           example_reply example_proxy_world))) ''m2'' = Some ''Subject: re: hello''"
proof -
  have a: "to_email_domain example_constants example_reply"
    by (simp add: to_email_domain_def example_constants_def example_reply_def
          recipient_matches_def domain_part_def)
  have b: "fst (run ((\<lambda>f m. Return CONTINUE) incomingMailCheckLambda example_reply)
             (stack_grants (DisposableEmailCdkStack example_constants)) (\<lambda>x. False)
             incomingMailCheckLambda example_proxy_world) = CONTINUE"
    by simp
  have m: "messageId example_reply = ''m2''" "rawBytes example_reply = ''Subject: re: hello''"
    by (simp_all add: example_reply_def)
  show ?thesis
    using a b example_reply_forwarded
      deposit_before_forwarding [OF a b, of 5000 "\<lambda>raw. ''re: hello''"]
    by (simp add: m)
qed

section \<open>The request API\<close>

text \<open>
  C7. The API has exactly five methods besides the CORS preflight methods that the
  gateway answers itself: \<open>GET create\<close>, \<open>GET {destination}\<close>, \<open>POST {destination}\<close>,
  \<open>GET {destination}/{messageId}\<close> and \<open>POST send\<close>. Each one is integrated with
  exactly one function: the handlers of address creation, mail listing, settings
  change, content retrieval and outbound send, five different functions. Every other
  method of the API is a preflight \<open>OPTIONS\<close> method with a mock integration.
\<close>

theorem api_five_endpoints:
  "map (\<lambda>am. (httpMethod am, resourcePath am, method_integration am,
              handler_of (DisposableEmailCdkStack c) am))
     (endpoints (DisposableEmailCdkStack c)) =
    [(GET, [''create''], LambdaIntegration createEmailLambda,
        Some ''CreateEmailFunction.lambda_handler''),
     (GET, [''{destination}''], LambdaIntegration getEmailsListLambda,
        Some ''GetEmailsListFunction.lambda_handler''),
     (POST, [''{destination}''], LambdaIntegration changeAddressSettingsLambda,
        Some ''ChangeAddressSettingsFunction.lambda_handler''),
     (GET, [''{destination}'', ''{messageId}''], LambdaIntegration getEmailFileLambda,
        Some ''GetEmailFileFunction.lambda_handler''),
     (POST, [''send''], LambdaIntegration sendEmailLambda,
        Some ''SendEmailFunction.lambda_handler'')]
   \<and> distinct (map method_integration (endpoints (DisposableEmailCdkStack c)))
   \<and> list_all (\<lambda>am. method_integration am = MockIntegration)
        (filter (\<lambda>am. httpMethod am = OPTIONS) (api_methods (apiGw (DisposableEmailCdkStack c))))"
  by (simp add: endpoints_def handler_of_def DisposableEmailCdkStack_def
        AuthorisingApiConstruct_def RestApi_def addResource_def addMethod_def
        preflight_methods_def Let_def)

text \<open>
  C10. Each of the five endpoints carries the default method options: authorization by
  the Cognito user-pool authorizer, whose result cache lasts zero seconds. So a request
  is admitted exactly when it carries a token that the user pool accepts at the time of
  the request; no earlier acceptance is reused, whatever the cache holds.
\<close>

theorem api_endpoints_authorized:
  "length (endpoints (DisposableEmailCdkStack c)) = 5
   \<and> list_all (\<lambda>am. options am =
          \<lparr> authorizationType = COGNITO, authorizer = Some cognitoAuthorizer \<rparr>)
        (endpoints (DisposableEmailCdkStack c))
   \<and> cognitoUserPools cognitoAuthorizer = [cognitoUserPool]
   \<and> resultsCacheTtl cognitoAuthorizer = 0
   \<and> list_all (\<lambda>am. \<forall>valid cache now tok.
          method_admits am valid cache now tok =
            (case tok of None \<Rightarrow> False | Some t \<Rightarrow> valid t))
        (endpoints (DisposableEmailCdkStack c))"
  by (simp add: endpoints_def DisposableEmailCdkStack_def AuthorisingApiConstruct_def
        RestApi_def addResource_def addMethod_def preflight_methods_def Let_def
        method_admits_def cached_zero cognitoAuthorizer_def no_authorization_def
        split: option.splits)

section \<open>The retention sweep\<close>

text \<open>
  C8. The clean-up function is invoked by one thing only, the scheduled rule, whose
  schedule is the constant expression \<open>rate(30 minutes)\<close> and which has no event
  pattern: a run at minute \<open>t\<close> is followed by the next at minute \<open>t + 30\<close>, whatever
  the stored state is.
\<close>

theorem cleanup_every_30_minutes:
  "parse_rate (schedule (cleanupRule (DisposableEmailCdkStack c))) = Some (30, Minutes)
   \<and> next_run (cleanupRule (DisposableEmailCdkStack c)) t = Some (t + 30)
   \<and> targets (cleanupRule (DisposableEmailCdkStack c)) = [cleanUpLambda]
   \<and> triggers (DisposableEmailCdkStack c) cleanUpLambda =
       [ScheduleTrigger ''rate(30 minutes)'' None]"
  by (simp add: DisposableEmailCdkStack_def next_run_def parse_rate_def parse_value_def
        parse_unit_def digit_value_def Let_def triggers_def AuthorisingApiConstruct_def
        RestApi_def addResource_def addMethod_def preflight_methods_def
        lambda_event_sources_def)

section \<open>Mailbox Store\<close>

text \<open>
  C4. In every reachable state no two rows of the emails table share the pair
  (destination, messageId): the pair is the key that the table is declared with. And
  when a Stored Email with the pair (destination, messageId) exists, the Mailbox Store's
  \<open>put\<close> for that pair, run by the storing function, makes one conditional write that
  the table refuses, fails with \<open>Conflict\<close>, and leaves the whole state, the existing
  row included, as it was.
\<close>

theorem mailbox_put_conflict:
  assumes "reachable (DisposableEmailCdkStack c) w"
  shows "distinct (map (\<lambda>it. (map_of it ''destination'', map_of it ''messageId'')) (emails w))
    \<and> (get_item (StorageConstruct disposableEmailsTable) (S dst, Some (S mid)) (emails w) \<noteq> None
        \<longrightarrow> run (mailbox_put dst mid sndr subj rcvd raw) (stack_grants (DisposableEmailCdkStack c))
              relay storeEmailLambda w =
            (Inl Conflict,
             [Called storeEmailLambda
                (PutItem disposableEmailsTable (stored_email dst mid sndr subj rcvd) True)
                ConditionalCheckFailed], w))"
proof -
  have "world_ok w" using assms by (rule reachable_ok)
  then have u: "keys_unique (StorageConstruct disposableEmailsTable) (emails w)"
    by (simp add: world_ok_def)
  have "call lambda_grants relay storeEmailLambda
          (PutItem disposableEmailsTable (stored_email dst mid sndr subj rcvd) True) w
        = perform relay (PutItem disposableEmailsTable (stored_email dst mid sndr subj rcvd) True) w"
    by (rule call_allowed) (simp add: store_may_put_email)
  then show ?thesis
    using keys_unique_emails_rows [OF u]
    by (simp add: mailbox_put_def stack_grants_eq key_of_stored_email)
qed

theorem mailbox_put_conflict_witness:
  "reachable (DisposableEmailCdkStack example_constants) example_world
   \<and> distinct (map (\<lambda>it. (map_of it ''destination'', map_of it ''messageId''))
        (emails example_world))
   \<and> get_item (StorageConstruct disposableEmailsTable)
        (S ''x7@mail.example.com'', Some (S ''m1'')) (emails example_world) \<noteq> None
   \<and> run (mailbox_put ''x7@mail.example.com'' ''m1'' ''bob@elsewhere.org'' ''again'' 3000 ''Subject: again'')
        (stack_grants (DisposableEmailCdkStack example_constants)) (\<lambda>x. True) storeEmailLambda
        example_world =
      (Inl Conflict,
       [Called storeEmailLambda
          (PutItem disposableEmailsTable
             (stored_email ''x7@mail.example.com'' ''m1'' ''bob@elsewhere.org'' ''again'' 3000) True)
          ConditionalCheckFailed], example_world)"
proof -
  have g: "get_item (StorageConstruct disposableEmailsTable)
        (S ''x7@mail.example.com'', Some (S ''m1'')) (emails example_world) \<noteq> None"
    by (simp add: example_world_def get_item_def key_of_stored_email)
  show ?thesis
    using g example_world_reachable [of example_constants]
      mailbox_put_conflict [OF example_world_reachable [of example_constants],
        of "''x7@mail.example.com''" "''m1''" "''bob@elsewhere.org''" "''again''" 3000
           "''Subject: again''" "\<lambda>x. True"]
    by simp
qed


section \<open>Address Registry\<close>

text \<open>
  C5. In every reachable state no two records of the addresses table share an address:
  \<open>address\<close> is the key the table is declared with. And for an address that has a
  record with an expiry, after any sequence of Address Registry operations (create, get,
  updateSettings, listExpired, delete), made by whichever functions, that does not
  delete this address, the record is still there and its \<open>expiresAt\<close> is not
  smaller than before.
\<close>

theorem address_unique_expiry_monotone:
  assumes "reachable (DisposableEmailCdkStack c) w"
    and "expiry_of w a = Some e"
    and "list_all (\<lambda>p. snd p \<noteq> Delete a) ops"
  shows "distinct (map (\<lambda>it. map_of it ''address'') (addresses w))
    \<and> (\<exists>e'. expiry_of (apply_ops (DisposableEmailCdkStack c) relay ops w) a = Some e' \<and> e \<le> e')"
proof -
  have "world_ok w" using assms(1) by (rule reachable_ok)
  then have "keys_unique (StorageConstruct disposableAddressesTable) (addresses w)"
    by (simp add: world_ok_def)
  then show ?thesis
    using keys_unique_addresses_rows apply_ops_expiry [OF assms(3) assms(2)] by blast
qed

theorem address_unique_expiry_monotone_witness:
  "reachable (DisposableEmailCdkStack example_constants) example_world
   \<and> expiry_of example_world ''x7@mail.example.com'' = Some 87400
   \<and> list_all (\<lambda>p. snd p \<noteq> Delete ''x7@mail.example.com'')
        [(changeAddressSettingsLambda, UpdateSettings ''x7@mail.example.com'' (Some 3600) False)]
   \<and> distinct (map (\<lambda>it. map_of it ''address'') (addresses example_world))
   \<and> (\<exists>e'. expiry_of (apply_ops (DisposableEmailCdkStack example_constants) (\<lambda>x. True)
              [(changeAddressSettingsLambda, UpdateSettings ''x7@mail.example.com'' (Some 3600) False)]
              example_world) ''x7@mail.example.com'' = Some e' \<and> 87400 \<le> e')"
proof -
  have e: "expiry_of example_world ''x7@mail.example.com'' = Some 87400"
    by (simp add: expiry_of_def example_world_def get_item_def key_of_new_address)
       (simp add: new_address_def expiresAt_def)
  have l: "list_all (\<lambda>p. snd p \<noteq> Delete ''x7@mail.example.com'')
        [(changeAddressSettingsLambda, UpdateSettings ''x7@mail.example.com'' (Some 3600) False)]"
    by simp
  show ?thesis
    using e l example_world_reachable [of example_constants]
      address_unique_expiry_monotone [OF example_world_reachable [of example_constants] e l,
        of "\<lambda>x. True"]
    by simp
qed

text \<open>
  C6. For a valid domain constraint (one that equals the configured domain) and a random
  source that holds a local-part not yet taken, \<open>create\<close>, run by the creating
  function, succeeds. It returns a record that was not in the registry before, whose
  address is the first free local-part at the domain of the constraint, whose
  \<open>createdAt\<close> is the time of the call and whose \<open>expiresAt\<close> is \<open>createdAt\<close> plus
  the configured \<open>MAILBOX_TTL\<close>; the record is added to the registry, and the list
  returned with it holds exactly the records of the registry, the new one included,
  whose owner is the caller's \<open>ownerToken\<close>.
\<close>

theorem create_address:
  assumes "domainConstraint = EMAIL_DOMAIN_NAME c"
    and "find (\<lambda>d. get_item (StorageConstruct disposableAddressesTable)
                      (S (d @ ''@'' @ domainConstraint), None) (addresses w) = None) draws = Some d"
  shows "\<exists>new tr.
      run (create (DisposableEmailCdkStack c) now draws ownerToken domainConstraint)
        (stack_grants (DisposableEmailCdkStack c)) relay createEmailLambda w =
        (Inr (new, filter (\<lambda>it. map_of it ''ownerToken'' = Some (S ownerToken)) (addresses w @ [new])),
         tr, w\<lparr> addresses := addresses w @ [new] \<rparr>)
      \<and> get_item (StorageConstruct disposableAddressesTable)
            (S (d @ ''@'' @ domainConstraint), None) (addresses w) = None
      \<and> map_of new ''address'' = Some (S (d @ ''@'' @ domainConstraint))
      \<and> map_of new ''ownerToken'' = Some (S ownerToken)
      \<and> map_of new ''createdAt'' = Some (N now)
      \<and> map_of new ''expiresAt'' = Some (N (now + MAILBOX_TTL c))"
proof -
  from create_fresh_run [OF assms(2), of "MAILBOX_TTL c" now ownerToken relay]
  obtain tr where
    "run (create_fresh domainConstraint (MAILBOX_TTL c) now ownerToken draws) lambda_grants relay
        createEmailLambda w =
      (Inr (new_address (d @ ''@'' @ domainConstraint) ownerToken now (MAILBOX_TTL c),
            filter (\<lambda>it. map_of it ''ownerToken'' = Some (S ownerToken))
              (addresses w @ [new_address (d @ ''@'' @ domainConstraint) ownerToken now (MAILBOX_TTL c)])),
       tr,
       w\<lparr> addresses := addresses w @ [new_address (d @ ''@'' @ domainConstraint) ownerToken now (MAILBOX_TTL c)] \<rparr>)"
    by blast
  moreover have "get_item (StorageConstruct disposableAddressesTable)
            (S (d @ ''@'' @ domainConstraint), None) (addresses w) = None"
    using assms(2) by (auto simp add: find_Some_iff)
  ultimately show ?thesis
    using assms(1)
    by (simp add: create_def create_env parse_value_toString stack_grants_eq new_address_def)
qed

theorem create_address_witness:
  "''mail.example.com'' = EMAIL_DOMAIN_NAME example_constants
   \<and> find (\<lambda>d. get_item (StorageConstruct disposableAddressesTable)
                 (S (d @ ''@'' @ ''mail.example.com''), None) (addresses example_world) = None)
        [''x7'', ''k2''] = Some ''k2''
   \<and> (\<exists>new tr.
        run (create (DisposableEmailCdkStack example_constants) 5000 [''x7'', ''k2''] ''owner-1''
               ''mail.example.com'')
          (stack_grants (DisposableEmailCdkStack example_constants)) (\<lambda>x. True) createEmailLambda
          example_world =
          (Inr (new, filter (\<lambda>it. map_of it ''ownerToken'' = Some (S ''owner-1''))
                       (addresses example_world @ [new])),
           tr, example_world\<lparr> addresses := addresses example_world @ [new] \<rparr>)
        \<and> map_of new ''address'' = Some (S ''k2@mail.example.com'')
        \<and> map_of new ''createdAt'' = Some (N 5000)
        \<and> map_of new ''expiresAt'' = Some (N 91400))"
proof -
  have a: "''mail.example.com'' = EMAIL_DOMAIN_NAME example_constants"
    by (simp add: example_constants_def)
  have b: "find (\<lambda>d. get_item (StorageConstruct disposableAddressesTable)
                 (S (d @ ''@'' @ ''mail.example.com''), None) (addresses example_world) = None)
        [''x7'', ''k2''] = Some ''k2''"
    by (simp add: example_world_def get_item_def key_of_new_address)
  have t: "5000 + MAILBOX_TTL example_constants = 91400"
    by (simp add: example_constants_def constants_def)
  from create_address [OF a b, of 5000 "''owner-1''" "\<lambda>x. True"] t
  have "\<exists>new tr.
        run (create (DisposableEmailCdkStack example_constants) 5000 [''x7'', ''k2''] ''owner-1''
               ''mail.example.com'')
          (stack_grants (DisposableEmailCdkStack example_constants)) (\<lambda>x. True) createEmailLambda
          example_world =
          (Inr (new, filter (\<lambda>it. map_of it ''ownerToken'' = Some (S ''owner-1''))
                       (addresses example_world @ [new])),
           tr, example_world\<lparr> addresses := addresses example_world @ [new] \<rparr>)
        \<and> map_of new ''address'' = Some (S ''k2@mail.example.com'')
        \<and> map_of new ''createdAt'' = Some (N 5000)
        \<and> map_of new ''expiresAt'' = Some (N 91400)"
    by auto
  with a b show ?thesis by blast
qed

section \<open>Retention Sweeper\<close>



end
